theory Spec2Isabelle
  imports Main
begin

section \<open>Data model (convex/schema.ts)\<close>

text \<open>
  Document ids are opaque and are never reused by the platform; they are modelled as
  natural numbers handed out by a counter kept in the database state. User ids come from
  the identity provider and are strings. Every \<open>v.number()\<close> field of the schema
  holds a timestamp read from \<open>Date.now()\<close> (milliseconds since the epoch), modelled
  as an integer. The system field \<open>_creationTime\<close> only orders index scans; each
  table is a list in insertion order, which is that order.
\<close>

type_synonym doc_id = nat
type_synonym user_id = string
type_synonym time = int

datatype role = Operator | Driver | Business

datatype invite_role = InviteDriver | InviteBusiness

datatype tripStatus = Active | Completed

text \<open>The value of \<open>authComponent.getAuthUser(ctx)\<close>; \<open>None\<close> is \<open>null\<close>.\<close>

record auth_user =
  u_id :: user_id
  u_email :: string
  u_name :: "string option"

record operator =
  op_id :: doc_id
  op_name :: string
  op_slug :: string
  op_ownerId :: user_id
  op_createdAt :: time

record member =
  mem_id :: doc_id
  mem_operatorId :: doc_id
  mem_userId :: user_id
  mem_role :: role
  mem_email :: string
  mem_name :: string
  mem_createdAt :: time

record route =
  rt_id :: doc_id
  rt_operatorId :: doc_id
  rt_name :: string
  rt_description :: "string option"
  rt_isActive :: bool
  rt_createdAt :: time

record passenger =
  pas_id :: doc_id
  pas_operatorId :: doc_id
  pas_businessId :: user_id
  pas_name :: string
  pas_email :: string
  pas_qrCode :: string
  pas_createdAt :: time
  pas_archivedAt :: "time option"

record tripSession =
  trip_id :: doc_id
  trip_operatorId :: doc_id
  trip_routeId :: doc_id
  trip_driverId :: user_id
  trip_startedAt :: time
  trip_endedAt :: "time option"
  trip_status :: tripStatus

record scan =
  scan_id :: doc_id
  scan_operatorId :: doc_id
  scan_tripSessionId :: doc_id
  scan_passengerId :: doc_id
  scan_scannedAt :: time
  scan_scannedBy :: user_id

record invite =
  inv_id :: doc_id
  inv_operatorId :: doc_id
  inv_email :: string
  inv_role :: invite_role
  inv_token :: string
  inv_createdAt :: time
  inv_expiresAt :: time
  inv_usedAt :: "time option"

text \<open>Jobs queued with \<open>ctx.scheduler.runAfter(0, ...)\<close>; they write nothing to the tables.\<close>

datatype job =
  SendTicketEmail string string string string
| SendInviteEmail string string invite_role string

record db =
  operators :: "operator list"
  members :: "member list"
  routes :: "route list"
  passengers :: "passenger list"
  tripSessions :: "tripSession list"
  scans :: "scan list"
  invites :: "invite list"
  scheduled :: "job list"
  next_id :: doc_id

definition empty_db :: db where
  "empty_db = \<lparr>operators = [], members = [], routes = [], passengers = [],
     tripSessions = [], scans = [], invites = [], scheduled = [], next_id = 0\<rparr>"

text \<open>Every \<open>throw new Error(...)\<close> of the handlers, one constructor per message.\<close>

datatype error =
  NotAuthenticated
| OnlyDrivers
| OnlyBusinesses
| OnlyOperators
| NotAMember
| RouteNotFound
| StartTripOtherOperator
| ActiveTripExists
| TripNotFound
| EndOtherDriversTrip
| ScanOtherDriversTrip
| TripNotActive
| InvalidQrCode
| PassengerOtherOperator
| SlugTaken
| AlreadyOwnsOperator
| InviteOtherOperator
| OperatorNotFound
| InvalidInvite
| InviteAlreadyUsed
| InviteExpired
| AlreadyMember
| MemberNotFound
| RemoveMemberOtherOperator
| CannotRemoveOperator
| InviteNotFound
| DeleteInviteOtherOperator
| CreateRouteOtherOperator
| UpdateRouteOtherOperator
| DeleteRouteOtherOperator
| AddPassengerOtherOperator
| PassengerNotFound
| UpdateOtherBusinessPassenger
| ArchiveOtherBusinessPassenger
| ResendOtherBusinessPassenger

section \<open>Platform primitives\<close>

text \<open>
  \<open>ctx.db.get\<close>, \<open>ctx.db.patch\<close> and \<open>ctx.db.delete\<close> on one table; the first
  argument reads the \<open>_id\<close> field of a row. An index query with an equality on every
  index field followed by \<open>.first()\<close> is \<open>find\<close> on the table.
\<close>

definition db_get :: "('a \<Rightarrow> doc_id) \<Rightarrow> 'a list \<Rightarrow> doc_id \<Rightarrow> 'a option" where
  "db_get idf tbl i = find (\<lambda>r. idf r = i) tbl"

definition db_patch :: "('a \<Rightarrow> doc_id) \<Rightarrow> 'a list \<Rightarrow> doc_id \<Rightarrow> ('a \<Rightarrow> 'a) \<Rightarrow> 'a list" where
  "db_patch idf tbl i f = map (\<lambda>r. if idf r = i then f r else r) tbl"

definition db_delete :: "('a \<Rightarrow> doc_id) \<Rightarrow> 'a list \<Rightarrow> doc_id \<Rightarrow> 'a list" where
  "db_delete idf tbl i = filter (\<lambda>r. idf r \<noteq> i) tbl"

text \<open>
  JavaScript truthiness of an optional number, as in \<open>if (invite.usedAt)\<close> and
  \<open>!p.archivedAt\<close>: \<open>undefined\<close> and \<open>0\<close> are falsy.
\<close>

fun truthy :: "time option \<Rightarrow> bool" where
  "truthy None = False"
| "truthy (Some t) = (t \<noteq> 0)"

text \<open>\<open>user.name || user.email\<close>: a missing or empty name falls back to the email.\<close>

definition display_name :: "auth_user \<Rightarrow> string" where
  "display_name user =
     (case u_name user of None \<Rightarrow> u_email user
      | Some n \<Rightarrow> if n = [] then u_email user else n)"

text \<open>
  A mutation runs as one transaction: a thrown error aborts it and nothing is written.
  A handler returns \<open>Inl e\<close> for the error or \<open>Inr (s', r)\<close> with the committed state and
  the returned value; \<open>state_after\<close> is the database once the call is over.
\<close>

definition state_after :: "db \<Rightarrow> error + (db \<times> 'r) \<Rightarrow> db" where
  "state_after s res = (case res of Inl e \<Rightarrow> s | Inr (s', r) \<Rightarrow> s')"

section \<open>Trips (api.trips: startTrip, endTrip, scanPassenger)\<close>

definition requireDriverRole :: "db \<Rightarrow> auth_user option \<Rightarrow> error + (auth_user \<times> member)" where
  "requireDriverRole s caller =
     (case caller of
        None \<Rightarrow> Inl NotAuthenticated
      | Some user \<Rightarrow>
          (case find (\<lambda>m. mem_userId m = u_id user) (members s) of
             None \<Rightarrow> Inl OnlyDrivers
           | Some membership \<Rightarrow>
               if mem_role membership \<noteq> Driver then Inl OnlyDrivers
               else Inr (user, membership)))"

definition startTrip :: "db \<Rightarrow> auth_user option \<Rightarrow> time \<Rightarrow> doc_id \<Rightarrow> error + (db \<times> doc_id)" where
  "startTrip s caller now routeId =
     (case requireDriverRole s caller of
        Inl e \<Rightarrow> Inl e
      | Inr (user, membership) \<Rightarrow>
          (case db_get rt_id (routes s) routeId of
             None \<Rightarrow> Inl RouteNotFound
           | Some route \<Rightarrow>
               if rt_operatorId route \<noteq> mem_operatorId membership then Inl StartTripOtherOperator
               else
                 (case find (\<lambda>t. trip_driverId t = u_id user \<and> trip_status t = Active)
                         (tripSessions s) of
                    Some activeTrip \<Rightarrow> Inl ActiveTripExists
                  | None \<Rightarrow>
                      Inr (s\<lparr>tripSessions := tripSessions s @
                               [\<lparr>trip_id = next_id s,
                                 trip_operatorId = mem_operatorId membership,
                                 trip_routeId = routeId,
                                 trip_driverId = u_id user,
                                 trip_startedAt = now,
                                 trip_endedAt = None,
                                 trip_status = Active\<rparr>],
                             next_id := Suc (next_id s)\<rparr>,
                           next_id s))))"

definition endTrip :: "db \<Rightarrow> auth_user option \<Rightarrow> time \<Rightarrow> doc_id \<Rightarrow> error + (db \<times> unit)" where
  "endTrip s caller now tripSessionId =
     (case requireDriverRole s caller of
        Inl e \<Rightarrow> Inl e
      | Inr (user, membership) \<Rightarrow>
          (case db_get trip_id (tripSessions s) tripSessionId of
             None \<Rightarrow> Inl TripNotFound
           | Some trip \<Rightarrow>
               if trip_driverId trip \<noteq> u_id user then Inl EndOtherDriversTrip
               else if trip_status trip \<noteq> Active then Inl TripNotActive
               else
                 Inr (s\<lparr>tripSessions := db_patch trip_id (tripSessions s) tripSessionId
                          (\<lambda>t. t\<lparr>trip_status := Completed, trip_endedAt := Some now\<rparr>)\<rparr>,
                      ())))"

datatype scanStatus = Success | AlreadyScanned

record scanResult =
  res_passenger :: passenger
  res_status :: scanStatus

definition scanPassenger ::
  "db \<Rightarrow> auth_user option \<Rightarrow> time \<Rightarrow> doc_id \<Rightarrow> string \<Rightarrow> error + (db \<times> scanResult)" where
  "scanPassenger s caller now tripSessionId qrCode =
     (case requireDriverRole s caller of
        Inl e \<Rightarrow> Inl e
      | Inr (user, membership) \<Rightarrow>
          (case db_get trip_id (tripSessions s) tripSessionId of
             None \<Rightarrow> Inl TripNotFound
           | Some trip \<Rightarrow>
               if trip_driverId trip \<noteq> u_id user then Inl ScanOtherDriversTrip
               else if trip_status trip \<noteq> Active then Inl TripNotActive
               else
                 (case find (\<lambda>p. pas_qrCode p = qrCode) (passengers s) of
                    None \<Rightarrow> Inl InvalidQrCode
                  | Some passenger \<Rightarrow>
                      if pas_operatorId passenger \<noteq> mem_operatorId membership
                      then Inl PassengerOtherOperator
                      else
                        (case find (\<lambda>sc. scan_passengerId sc = pas_id passenger)
                                (filter (\<lambda>sc. scan_tripSessionId sc = tripSessionId) (scans s)) of
                           Some existingScan \<Rightarrow>
                             Inr (s, \<lparr>res_passenger = passenger, res_status = AlreadyScanned\<rparr>)
                         | None \<Rightarrow>
                             Inr (s\<lparr>scans := scans s @
                                      [\<lparr>scan_id = next_id s,
                                        scan_operatorId = mem_operatorId membership,
                                        scan_tripSessionId = tripSessionId,
                                        scan_passengerId = pas_id passenger,
                                        scan_scannedAt = now,
                                        scan_scannedBy = u_id user\<rparr>],
                                    next_id := Suc (next_id s)\<rparr>,
                                  \<lparr>res_passenger = passenger, res_status = Success\<rparr>)))))"

section \<open>Operators (convex/operators.ts)\<close>

definition createOperator ::
  "db \<Rightarrow> auth_user option \<Rightarrow> time \<Rightarrow> string \<Rightarrow> string \<Rightarrow> error + (db \<times> doc_id)" where
  "createOperator s caller now name slug =
     (case caller of
        None \<Rightarrow> Inl NotAuthenticated
      | Some user \<Rightarrow>
          (case find (\<lambda>p. op_slug p = slug) (operators s) of
             Some existing \<Rightarrow> Inl SlugTaken
           | None \<Rightarrow>
               (case find (\<lambda>p. op_ownerId p = u_id user) (operators s) of
                  Some ownedOperator \<Rightarrow> Inl AlreadyOwnsOperator
                | None \<Rightarrow>
                    Inr (s\<lparr>operators := operators s @
                             [\<lparr>op_id = next_id s, op_name = name, op_slug = slug,
                               op_ownerId = u_id user, op_createdAt = now\<rparr>],
                           members := members s @
                             [\<lparr>mem_id = Suc (next_id s),
                               mem_operatorId = next_id s,
                               mem_userId = u_id user,
                               mem_role = Operator,
                               mem_email = u_email user,
                               mem_name = display_name user,
                               mem_createdAt = now\<rparr>],
                           next_id := Suc (Suc (next_id s))\<rparr>,
                         next_id s))))"

section \<open>Members and invites (convex/members.ts)\<close>

definition requireOperatorRole :: "db \<Rightarrow> auth_user option \<Rightarrow> error + (auth_user \<times> member)" where
  "requireOperatorRole s caller =
     (case caller of
        None \<Rightarrow> Inl NotAuthenticated
      | Some user \<Rightarrow>
          (case find (\<lambda>m. mem_userId m = u_id user) (members s) of
             None \<Rightarrow> Inl OnlyOperators
           | Some membership \<Rightarrow>
               if mem_role membership \<noteq> Operator then Inl OnlyOperators
               else Inr (user, membership)))"

text \<open>
  The invite token is \<open>nanoid(32)\<close>; the random string is an argument of the model.
  The invite lives seven days, counted in milliseconds.
\<close>

definition createInvite ::
  "db \<Rightarrow> auth_user option \<Rightarrow> time \<Rightarrow> string \<Rightarrow> doc_id \<Rightarrow> string \<Rightarrow> invite_role
     \<Rightarrow> error + (db \<times> (doc_id \<times> string))" where
  "createInvite s caller now token operatorId email irole =
     (case requireOperatorRole s caller of
        Inl e \<Rightarrow> Inl e
      | Inr (user, membership) \<Rightarrow>
          if mem_operatorId membership \<noteq> operatorId then Inl InviteOtherOperator
          else
            (case db_get op_id (operators s) operatorId of
               None \<Rightarrow> Inl OperatorNotFound
             | Some operator \<Rightarrow>
                 Inr (s\<lparr>invites := invites s @
                          [\<lparr>inv_id = next_id s, inv_operatorId = operatorId, inv_email = email,
                            inv_role = irole, inv_token = token, inv_createdAt = now,
                            inv_expiresAt = now + 7 * 24 * 60 * 60 * 1000,
                            inv_usedAt = None\<rparr>],
                        scheduled := scheduled s @
                          [SendInviteEmail email (op_name operator) irole token],
                        next_id := Suc (next_id s)\<rparr>,
                      (next_id s, token))))"

fun role_of_invite :: "invite_role \<Rightarrow> role" where
  "role_of_invite InviteDriver = Driver"
| "role_of_invite InviteBusiness = Business"

definition acceptInvite ::
  "db \<Rightarrow> auth_user option \<Rightarrow> time \<Rightarrow> string \<Rightarrow> error + (db \<times> doc_id)" where
  "acceptInvite s caller now token =
     (case caller of
        None \<Rightarrow> Inl NotAuthenticated
      | Some user \<Rightarrow>
          (case find (\<lambda>i. inv_token i = token) (invites s) of
             None \<Rightarrow> Inl InvalidInvite
           | Some invite \<Rightarrow>
               if truthy (inv_usedAt invite) then Inl InviteAlreadyUsed
               else if inv_expiresAt invite < now then Inl InviteExpired
               else
                 (case find (\<lambda>m. mem_userId m = u_id user) (members s) of
                    Some existingMembership \<Rightarrow> Inl AlreadyMember
                  | None \<Rightarrow>
                      Inr (s\<lparr>members := members s @
                               [\<lparr>mem_id = next_id s,
                                 mem_operatorId = inv_operatorId invite,
                                 mem_userId = u_id user,
                                 mem_role = role_of_invite (inv_role invite),
                                 mem_email = u_email user,
                                 mem_name = display_name user,
                                 mem_createdAt = now\<rparr>],
                             invites := db_patch inv_id (invites s) (inv_id invite)
                               (\<lambda>i. i\<lparr>inv_usedAt := Some now\<rparr>),
                             next_id := Suc (next_id s)\<rparr>,
                           inv_operatorId invite))))"

definition removeMember :: "db \<Rightarrow> auth_user option \<Rightarrow> doc_id \<Rightarrow> error + (db \<times> unit)" where
  "removeMember s caller memberId =
     (case requireOperatorRole s caller of
        Inl e \<Rightarrow> Inl e
      | Inr (user, membership) \<Rightarrow>
          (case db_get mem_id (members s) memberId of
             None \<Rightarrow> Inl MemberNotFound
           | Some targetMember \<Rightarrow>
               if mem_operatorId targetMember \<noteq> mem_operatorId membership
               then Inl RemoveMemberOtherOperator
               else if mem_role targetMember = Operator then Inl CannotRemoveOperator
               else Inr (s\<lparr>members := db_delete mem_id (members s) memberId\<rparr>, ())))"

definition deleteInvite :: "db \<Rightarrow> auth_user option \<Rightarrow> doc_id \<Rightarrow> error + (db \<times> unit)" where
  "deleteInvite s caller inviteId =
     (case requireOperatorRole s caller of
        Inl e \<Rightarrow> Inl e
      | Inr (user, membership) \<Rightarrow>
          (case db_get inv_id (invites s) inviteId of
             None \<Rightarrow> Inl InviteNotFound
           | Some invite \<Rightarrow>
               if inv_operatorId invite \<noteq> mem_operatorId membership
               then Inl DeleteInviteOtherOperator
               else Inr (s\<lparr>invites := db_delete inv_id (invites s) inviteId\<rparr>, ())))"

section \<open>Routes (convex/routes.ts)\<close>

definition createRoute ::
  "db \<Rightarrow> auth_user option \<Rightarrow> time \<Rightarrow> doc_id \<Rightarrow> string \<Rightarrow> string option
     \<Rightarrow> error + (db \<times> doc_id)" where
  "createRoute s caller now operatorId name description =
     (case requireOperatorRole s caller of
        Inl e \<Rightarrow> Inl e
      | Inr (user, membership) \<Rightarrow>
          if mem_operatorId membership \<noteq> operatorId then Inl CreateRouteOtherOperator
          else
            Inr (s\<lparr>routes := routes s @
                     [\<lparr>rt_id = next_id s, rt_operatorId = operatorId, rt_name = name,
                       rt_description = description, rt_isActive = True,
                       rt_createdAt = now\<rparr>],
                   next_id := Suc (next_id s)\<rparr>,
                 next_id s))"

text \<open>\<open>routes.update\<close> patches only the fields that were passed; \<open>None\<close> is an absent argument.\<close>

definition updateRoute ::
  "db \<Rightarrow> auth_user option \<Rightarrow> doc_id \<Rightarrow> string option \<Rightarrow> string option \<Rightarrow> bool option
     \<Rightarrow> error + (db \<times> unit)" where
  "updateRoute s caller routeId name description isActive =
     (case requireOperatorRole s caller of
        Inl e \<Rightarrow> Inl e
      | Inr (user, membership) \<Rightarrow>
          (case db_get rt_id (routes s) routeId of
             None \<Rightarrow> Inl RouteNotFound
           | Some route \<Rightarrow>
               if rt_operatorId route \<noteq> mem_operatorId membership
               then Inl UpdateRouteOtherOperator
               else
                 Inr (s\<lparr>routes := db_patch rt_id (routes s) routeId
                          (\<lambda>r. r\<lparr>rt_name := (case name of None \<Rightarrow> rt_name r | Some n \<Rightarrow> n),
                                 rt_description :=
                                   (case description of None \<Rightarrow> rt_description r
                                    | Some d \<Rightarrow> Some d),
                                 rt_isActive :=
                                   (case isActive of None \<Rightarrow> rt_isActive r | Some b \<Rightarrow> b)\<rparr>)\<rparr>,
                      ())))"

definition removeRoute :: "db \<Rightarrow> auth_user option \<Rightarrow> doc_id \<Rightarrow> error + (db \<times> unit)" where
  "removeRoute s caller routeId =
     (case requireOperatorRole s caller of
        Inl e \<Rightarrow> Inl e
      | Inr (user, membership) \<Rightarrow>
          (case db_get rt_id (routes s) routeId of
             None \<Rightarrow> Inl RouteNotFound
           | Some route \<Rightarrow>
               if rt_operatorId route \<noteq> mem_operatorId membership
               then Inl DeleteRouteOtherOperator
               else Inr (s\<lparr>routes := db_delete rt_id (routes s) routeId\<rparr>, ())))"

section \<open>Passengers (api.passengers)\<close>

definition requireBusinessRole :: "db \<Rightarrow> auth_user option \<Rightarrow> error + (auth_user \<times> member)" where
  "requireBusinessRole s caller =
     (case caller of
        None \<Rightarrow> Inl NotAuthenticated
      | Some user \<Rightarrow>
          (case find (\<lambda>m. mem_userId m = u_id user) (members s) of
             None \<Rightarrow> Inl OnlyBusinesses
           | Some membership \<Rightarrow>
               if mem_role membership \<noteq> Business then Inl OnlyBusinesses
               else Inr (user, membership)))"

definition requireMembership ::
  "db \<Rightarrow> auth_user option \<Rightarrow> doc_id \<Rightarrow> error + (auth_user \<times> member)" where
  "requireMembership s caller operatorId =
     (case caller of
        None \<Rightarrow> Inl NotAuthenticated
      | Some user \<Rightarrow>
          (case find (\<lambda>m. mem_operatorId m = operatorId \<and> mem_userId m = u_id user) (members s) of
             None \<Rightarrow> Inl NotAMember
           | Some membership \<Rightarrow> Inr (user, membership)))"

text \<open>
  The QR token is \<open>SAVARI-\<close> followed by \<open>nanoid(12)\<close>; the random part is an
  argument of the model.
\<close>

definition createPassenger ::
  "db \<Rightarrow> auth_user option \<Rightarrow> time \<Rightarrow> string \<Rightarrow> doc_id \<Rightarrow> string \<Rightarrow> string
     \<Rightarrow> error + (db \<times> doc_id)" where
  "createPassenger s caller now nano operatorId name email =
     (case requireBusinessRole s caller of
        Inl e \<Rightarrow> Inl e
      | Inr (user, membership) \<Rightarrow>
          if mem_operatorId membership \<noteq> operatorId then Inl AddPassengerOtherOperator
          else
            (case db_get op_id (operators s) operatorId of
               None \<Rightarrow> Inl OperatorNotFound
             | Some operator \<Rightarrow>
                 Inr (s\<lparr>passengers := passengers s @
                          [\<lparr>pas_id = next_id s, pas_operatorId = operatorId,
                            pas_businessId = u_id user, pas_name = name, pas_email = email,
                            pas_qrCode = ''SAVARI-'' @ nano, pas_createdAt = now,
                            pas_archivedAt = None\<rparr>],
                        scheduled := scheduled s @
                          [SendTicketEmail email name (op_name operator) (''SAVARI-'' @ nano)],
                        next_id := Suc (next_id s)\<rparr>,
                      next_id s)))"

text \<open>
  \<open>query.paginate\<close> is the platform's: it maps the rows of the index range, the cursor
  and the page size to a page with its continuation. It is a parameter of \<open>listPassengers\<close>.
\<close>

record paginationResult =
  pg_page :: "passenger list"
  pg_isDone :: bool
  pg_continueCursor :: string

type_synonym paginate = "passenger list \<Rightarrow> string option \<Rightarrow> nat \<Rightarrow> paginationResult"

definition listPassengers ::
  "paginate \<Rightarrow> db \<Rightarrow> auth_user option \<Rightarrow> doc_id \<Rightarrow> string option \<Rightarrow> nat \<Rightarrow> bool option
     \<Rightarrow> error + paginationResult" where
  "listPassengers pg s caller operatorId cursor numItems includeArchived =
     (case requireMembership s caller operatorId of
        Inl e \<Rightarrow> Inl e
      | Inr (user, membership) \<Rightarrow>
          (let query =
                 (if mem_role membership = Business
                  then filter (\<lambda>p. pas_operatorId p = operatorId \<and> pas_businessId p = u_id user)
                         (passengers s)
                  else filter (\<lambda>p. pas_operatorId p = operatorId) (passengers s));
               results = pg query cursor numItems;
               filteredPage =
                 (if includeArchived = Some True then pg_page results
                  else filter (\<lambda>p. \<not> truthy (pas_archivedAt p)) (pg_page results))
           in Inr (results\<lparr>pg_page := filteredPage\<rparr>)))"

text \<open>The handler of \<open>getByQrCode\<close> receives the context and never reads the caller from it.\<close>

definition getByQrCode :: "db \<Rightarrow> auth_user option \<Rightarrow> string \<Rightarrow> error + passenger option" where
  "getByQrCode s caller qrCode = Inr (find (\<lambda>p. pas_qrCode p = qrCode) (passengers s))"

definition updatePassenger ::
  "db \<Rightarrow> auth_user option \<Rightarrow> doc_id \<Rightarrow> string option \<Rightarrow> string option
     \<Rightarrow> error + (db \<times> unit)" where
  "updatePassenger s caller passengerId name email =
     (case requireBusinessRole s caller of
        Inl e \<Rightarrow> Inl e
      | Inr (user, membership) \<Rightarrow>
          (case db_get pas_id (passengers s) passengerId of
             None \<Rightarrow> Inl PassengerNotFound
           | Some passenger \<Rightarrow>
               if pas_businessId passenger \<noteq> u_id user then Inl UpdateOtherBusinessPassenger
               else
                 Inr (s\<lparr>passengers := db_patch pas_id (passengers s) passengerId
                          (\<lambda>p. p\<lparr>pas_name := (case name of None \<Rightarrow> pas_name p | Some n \<Rightarrow> n),
                                 pas_email :=
                                   (case email of None \<Rightarrow> pas_email p | Some e \<Rightarrow> e)\<rparr>)\<rparr>,
                      ())))"

definition archivePassenger ::
  "db \<Rightarrow> auth_user option \<Rightarrow> time \<Rightarrow> doc_id \<Rightarrow> error + (db \<times> unit)" where
  "archivePassenger s caller now passengerId =
     (case requireBusinessRole s caller of
        Inl e \<Rightarrow> Inl e
      | Inr (user, membership) \<Rightarrow>
          (case db_get pas_id (passengers s) passengerId of
             None \<Rightarrow> Inl PassengerNotFound
           | Some passenger \<Rightarrow>
               if pas_businessId passenger \<noteq> u_id user then Inl ArchiveOtherBusinessPassenger
               else
                 Inr (s\<lparr>passengers := db_patch pas_id (passengers s) passengerId
                          (\<lambda>p. p\<lparr>pas_archivedAt := Some now\<rparr>)\<rparr>,
                      ())))"

definition resendTicketEmail :: "db \<Rightarrow> auth_user option \<Rightarrow> doc_id \<Rightarrow> error + (db \<times> unit)" where
  "resendTicketEmail s caller passengerId =
     (case requireBusinessRole s caller of
        Inl e \<Rightarrow> Inl e
      | Inr (user, membership) \<Rightarrow>
          (case db_get pas_id (passengers s) passengerId of
             None \<Rightarrow> Inl PassengerNotFound
           | Some passenger \<Rightarrow>
               if pas_businessId passenger \<noteq> u_id user then Inl ResendOtherBusinessPassenger
               else
                 (case db_get op_id (operators s) (pas_operatorId passenger) of
                    None \<Rightarrow> Inl OperatorNotFound
                  | Some operator \<Rightarrow>
                      Inr (s\<lparr>scheduled := scheduled s @
                               [SendTicketEmail (pas_email passenger) (pas_name passenger)
                                  (op_name operator) (pas_qrCode passenger)]\<rparr>,
                           ()))))"

section \<open>The mutations as one transition system\<close>

text \<open>
  One constructor per exported mutation, with its arguments and the random strings it
  draws. \<open>exec\<close> runs a call for a caller at a clock reading and keeps the committed state.
\<close>

datatype call =
  CreateOperator string string
| CreateInvite string doc_id string invite_role
| AcceptInvite string
| RemoveMember doc_id
| DeleteInvite doc_id
| CreateRoute doc_id string "string option"
| UpdateRoute doc_id "string option" "string option" "bool option"
| RemoveRoute doc_id
| CreatePassenger string doc_id string string
| UpdatePassenger doc_id "string option" "string option"
| ArchivePassenger doc_id
| ResendTicketEmail doc_id
| StartTrip doc_id
| EndTrip doc_id
| ScanPassenger doc_id string

fun exec :: "db \<Rightarrow> auth_user option \<Rightarrow> time \<Rightarrow> call \<Rightarrow> error + db" where
  "exec s caller now (CreateOperator name slug) =
     map_sum id fst (createOperator s caller now name slug)"
| "exec s caller now (CreateInvite token operatorId email irole) =
     map_sum id fst (createInvite s caller now token operatorId email irole)"
| "exec s caller now (AcceptInvite token) = map_sum id fst (acceptInvite s caller now token)"
| "exec s caller now (RemoveMember memberId) = map_sum id fst (removeMember s caller memberId)"
| "exec s caller now (DeleteInvite inviteId) = map_sum id fst (deleteInvite s caller inviteId)"
| "exec s caller now (CreateRoute operatorId name description) =
     map_sum id fst (createRoute s caller now operatorId name description)"
| "exec s caller now (UpdateRoute routeId name description isActive) =
     map_sum id fst (updateRoute s caller routeId name description isActive)"
| "exec s caller now (RemoveRoute routeId) = map_sum id fst (removeRoute s caller routeId)"
| "exec s caller now (CreatePassenger nano operatorId name email) =
     map_sum id fst (createPassenger s caller now nano operatorId name email)"
| "exec s caller now (UpdatePassenger passengerId name email) =
     map_sum id fst (updatePassenger s caller passengerId name email)"
| "exec s caller now (ArchivePassenger passengerId) =
     map_sum id fst (archivePassenger s caller now passengerId)"
| "exec s caller now (ResendTicketEmail passengerId) =
     map_sum id fst (resendTicketEmail s caller passengerId)"
| "exec s caller now (StartTrip routeId) = map_sum id fst (startTrip s caller now routeId)"
| "exec s caller now (EndTrip tripSessionId) =
     map_sum id fst (endTrip s caller now tripSessionId)"
| "exec s caller now (ScanPassenger tripSessionId qrCode) =
     map_sum id fst (scanPassenger s caller now tripSessionId qrCode)"

text \<open>
  The states the application can be in: the empty database and whatever committed calls,
  by any caller with any arguments, make of it. The clock \<open>Date.now()\<close> counts
  milliseconds since 1970 and reads a positive number.
\<close>

inductive reachable :: "db \<Rightarrow> bool" where
  reachable_empty: "reachable empty_db"
| reachable_step: "reachable s \<Longrightarrow> 0 < now \<Longrightarrow> exec s caller now c = Inr s' \<Longrightarrow> reachable s'"

text \<open>
  A sequence of calls replayed from a state; a rejected call writes nothing and the next
  call sees the same state.
\<close>

fun replay :: "db \<Rightarrow> (auth_user option \<times> time \<times> call) list \<Rightarrow> db" where
  "replay s [] = s"
| "replay s ((caller, now, c) # cs) =
     replay (case exec s caller now c of Inl e \<Rightarrow> s | Inr s' \<Rightarrow> s') cs"

section \<open>Derived notions used by the properties\<close>

text \<open>The Scan rows of a (trip, passenger) pair, and the active trips of a driver.\<close>

definition scan_rows :: "db \<Rightarrow> doc_id \<Rightarrow> doc_id \<Rightarrow> scan list" where
  "scan_rows s t p =
     filter (\<lambda>sc. scan_tripSessionId sc = t \<and> scan_passengerId sc = p) (scans s)"

definition active_trips :: "db \<Rightarrow> user_id \<Rightarrow> tripSession list" where
  "active_trips s d =
     filter (\<lambda>t. trip_driverId t = d \<and> trip_status t = Active) (tripSessions s)"

definition member_rows :: "db \<Rightarrow> user_id \<Rightarrow> member list" where
  "member_rows s u = filter (\<lambda>m. mem_userId m = u) (members s)"

text \<open>
  The database with the \<open>archivedAt\<close> field of every passenger row overwritten by a
  value chosen per row; used to compare a call on archived and on unarchived passengers.
\<close>

definition set_archived :: "(passenger \<Rightarrow> time option) \<Rightarrow> db \<Rightarrow> db" where
  "set_archived a s = s\<lparr>passengers := map (\<lambda>p. p\<lparr>pas_archivedAt := a p\<rparr>) (passengers s)\<rparr>"

text \<open>
  One pagination to evaluate \<open>listPassengers\<close> with: whatever the cursor, the first
  \<open>numItems\<close> rows of the range.
\<close>

definition first_page :: paginate where
  "first_page rows cursor numItems =
     \<lparr>pg_page = take numItems rows, pg_isDone = (length rows \<le> numItems),
      pg_continueCursor = []\<rparr>"

text \<open>No optional timestamp in the tables is the number zero.\<close>

definition stamps_nonzero :: "db \<Rightarrow> bool" where
  "stamps_nonzero s \<longleftrightarrow>
     list_all (\<lambda>p. pas_archivedAt p \<noteq> Some 0) (passengers s) \<and>
     list_all (\<lambda>i. inv_usedAt i \<noteq> Some 0) (invites s)"

section \<open>A concrete scenario\<close>

text \<open>
  The scenario of the specification: an owner creates operator Acme and a route, invites a
  business and a driver, both accept, the business registers Alice, the driver starts a
  trip, scans Alice and ends the trip. The ids are the ones the counter hands out: operator 0, owner's member row 1,
  route 2, invites 3 and 4, member rows 5 and 6, passenger 7, trip 8.
\<close>

definition owner_user :: auth_user where
  "owner_user = \<lparr>u_id = ''U1'', u_email = ''u1@x.com'', u_name = Some ''Una''\<rparr>"

definition business_user :: auth_user where
  "business_user = \<lparr>u_id = ''U2'', u_email = ''u2@x.com'', u_name = None\<rparr>"

definition driver_user :: auth_user where
  "driver_user = \<lparr>u_id = ''U3'', u_email = ''u3@x.com'', u_name = Some ''Dan''\<rparr>"

definition alice_qr :: string where
  "alice_qr = ''SAVARI-abcdefghijkl''"

definition alice :: passenger where
  "alice = \<lparr>pas_id = 7, pas_operatorId = 0, pas_businessId = ''U2'', pas_name = ''Alice'',
             pas_email = ''alice@x.com'', pas_qrCode = ''SAVARI-abcdefghijkl'',
             pas_createdAt = 1006, pas_archivedAt = None\<rparr>"

definition driver_member :: member where
  "driver_member = \<lparr>mem_id = 6, mem_operatorId = 0, mem_userId = ''U3'', mem_role = Driver,
             mem_email = ''u3@x.com'', mem_name = ''Dan'', mem_createdAt = 1005\<rparr>"

definition business_member :: member where
  "business_member = \<lparr>mem_id = 5, mem_operatorId = 0, mem_userId = ''U2'',
             mem_role = Business, mem_email = ''u2@x.com'', mem_name = ''u2@x.com'',
             mem_createdAt = 1004\<rparr>"

definition first_trip :: tripSession where
  "first_trip = \<lparr>trip_id = 8, trip_operatorId = 0, trip_routeId = 2, trip_driverId = ''U3'',
             trip_startedAt = 1007, trip_endedAt = None, trip_status = Active\<rparr>"

definition downtown :: route where
  "downtown = \<lparr>rt_id = 2, rt_operatorId = 0, rt_name = ''Downtown'', rt_description = None,
             rt_isActive = True, rt_createdAt = 1001\<rparr>"

definition stranger_user :: auth_user where
  "stranger_user = \<lparr>u_id = ''U4'', u_email = ''u4@x.com'', u_name = Some ''Sam''\<rparr>"

definition invite_calls :: "(auth_user option \<times> time \<times> call) list" where
  "invite_calls =
     [(Some owner_user, 1000, CreateOperator ''Acme'' ''acme''),
      (Some owner_user, 1001, CreateRoute 0 ''Downtown'' None),
      (Some owner_user, 1002, CreateInvite ''tokB'' 0 ''u2@x.com'' InviteBusiness),
      (Some owner_user, 1003, CreateInvite ''tokD'' 0 ''u3@x.com'' InviteDriver)]"

definition invited_db :: db where
  "invited_db = replay empty_db invite_calls"

definition joined_db :: db where
  "joined_db = replay invited_db [(Some business_user, 1004, AcceptInvite ''tokB'')]"

definition register_calls :: "(auth_user option \<times> time \<times> call) list" where
  "register_calls =
     [(Some driver_user, 1005, AcceptInvite ''tokD''),
      (Some business_user, 1006, CreatePassenger ''abcdefghijkl'' 0 ''Alice'' ''alice@x.com'')]"

definition registered_db :: db where
  "registered_db = replay joined_db register_calls"

definition trip_db :: db where
  "trip_db = replay registered_db [(Some driver_user, 1007, StartTrip 2)]"

definition scanned_db :: db where
  "scanned_db = replay trip_db [(Some driver_user, 1008, ScanPassenger 8 alice_qr)]"

definition ended_db :: db where
  "ended_db = replay scanned_db [(Some driver_user, 1009, EndTrip 8)]"

definition archived_db :: db where
  "archived_db = replay trip_db [(Some business_user, 2000, ArchivePassenger 7)]"

definition bob :: passenger where
  "bob = \<lparr>pas_id = 9, pas_operatorId = 0, pas_businessId = ''U2'', pas_name = ''Bob'',
           pas_email = ''bob@x.com'', pas_qrCode = ''SAVARI-mnopqrstuvwx'',
           pas_createdAt = 2001, pas_archivedAt = None\<rparr>"

definition listed_db :: db where
  "listed_db = replay archived_db
     [(Some business_user, 2001, CreatePassenger ''mnopqrstuvwx'' 0 ''Bob'' ''bob@x.com'')]"

definition second_operator_db :: db where
  "second_operator_db = replay registered_db
     [(Some driver_user, 1500, CreateOperator ''Beta'' ''beta'')]"

definition archived_twice_db :: db where
  "archived_twice_db = replay archived_db [(Some business_user, 3000, ArchivePassenger 7)]"

section \<open>Frame and invariant lemmas\<close>

lemmas mutation_defs =
  createOperator_def createInvite_def acceptInvite_def removeMember_def deleteInvite_def
  createRoute_def updateRoute_def removeRoute_def createPassenger_def updatePassenger_def
  archivePassenger_def resendTicketEmail_def startTrip_def endTrip_def scanPassenger_def

lemma exec_scans:
  assumes "exec s caller now c = Inr s'"
  shows "scans s' = scans s \<or>
         (\<exists>sc. scans s' = scans s @ [sc] \<and>
               scan_rows s (scan_tripSessionId sc) (scan_passengerId sc) = [])"
  using assms
  by (cases c)
     (auto simp: mutation_defs scan_rows_def find_None_iff filter_empty_conv
           split: sum.splits option.splits if_splits prod.splits)

lemma exec_tripSessions:
  assumes "exec s caller now c = Inr s'"
  shows "tripSessions s' = tripSessions s \<or>
         (\<exists>t. tripSessions s' = tripSessions s @ [t] \<and> trip_status t = Active \<and>
              active_trips s (trip_driverId t) = []) \<or>
         (\<exists>i. tripSessions s' = db_patch trip_id (tripSessions s) i
                 (\<lambda>t. t\<lparr>trip_status := Completed, trip_endedAt := Some now\<rparr>))"
  using assms
  by (cases c)
     (auto simp: mutation_defs active_trips_def find_None_iff filter_empty_conv
           split: sum.splits option.splits if_splits prod.splits)

lemma exec_stamps_nonzero:
  assumes "exec s caller now c = Inr s'" and "now \<noteq> 0" and "stamps_nonzero s"
  shows "stamps_nonzero s'"
  using assms
  by (cases c)
     (auto simp: mutation_defs stamps_nonzero_def db_patch_def db_delete_def list_all_iff
           split: sum.splits option.splits if_splits prod.splits)

lemma reachable_stamps_nonzero: "reachable s \<Longrightarrow> stamps_nonzero s"
proof (induction rule: reachable.induct)
  case reachable_empty
  show ?case by (simp add: stamps_nonzero_def empty_db_def)
next
  case (reachable_step s now caller c s')
  then show ?case using exec_stamps_nonzero [of s caller now c s'] by simp
qed

lemma scan_rows_step:
  assumes "exec s caller now c = Inr s'" and "\<forall>t p. length (scan_rows s t p) \<le> 1"
  shows "length (scan_rows s' t p) \<le> 1"
proof -
  from exec_scans [OF assms(1)] show ?thesis
  proof
    assume "scans s' = scans s"
    then have "scan_rows s' t p = scan_rows s t p" by (simp add: scan_rows_def)
    with assms(2) show ?thesis by simp
  next
    assume "\<exists>sc. scans s' = scans s @ [sc] \<and>
               scan_rows s (scan_tripSessionId sc) (scan_passengerId sc) = []"
    then obtain sc where app: "scans s' = scans s @ [sc]"
      and none: "scan_rows s (scan_tripSessionId sc) (scan_passengerId sc) = []" by blast
    show ?thesis
    proof (cases "scan_tripSessionId sc = t \<and> scan_passengerId sc = p")
      case True
      with none have "scan_rows s t p = []" by simp
      with app True show ?thesis by (simp add: scan_rows_def)
    next
      case False
      with app have "scan_rows s' t p = scan_rows s t p" by (auto simp: scan_rows_def)
      with assms(2) show ?thesis by simp
    qed
  qed
qed

lemma reachable_scan_rows: "reachable s \<Longrightarrow> \<forall>t p. length (scan_rows s t p) \<le> 1"
proof (induction rule: reachable.induct)
  case reachable_empty
  show ?case by (simp add: scan_rows_def empty_db_def)
next
  case (reachable_step s now caller c s')
  then show ?case using scan_rows_step [of s caller now c s'] by blast
qed

lemma active_after_patch:
  "length (filter (\<lambda>t. trip_driverId t = d \<and> trip_status t = Active)
      (db_patch trip_id ts i (\<lambda>t. t\<lparr>trip_status := Completed, trip_endedAt := e\<rparr>)))
   \<le> length (filter (\<lambda>t. trip_driverId t = d \<and> trip_status t = Active) ts)"
  by (induction ts) (auto simp: db_patch_def)

lemma active_trips_step:
  assumes "exec s caller now c = Inr s'" and "\<forall>d. length (active_trips s d) \<le> 1"
  shows "length (active_trips s' d) \<le> 1"
proof -
  from exec_tripSessions [OF assms(1)]
  consider (same) "tripSessions s' = tripSessions s"
    | (started) t where "tripSessions s' = tripSessions s @ [t]" "trip_status t = Active"
        "active_trips s (trip_driverId t) = []"
    | (ended) i where "tripSessions s' = db_patch trip_id (tripSessions s) i
                 (\<lambda>t. t\<lparr>trip_status := Completed, trip_endedAt := Some now\<rparr>)"
    by blast
  then show ?thesis
  proof cases
    case same
    then have "active_trips s' d = active_trips s d" by (simp add: active_trips_def)
    with assms(2) show ?thesis by simp
  next
    case started
    show ?thesis
    proof (cases "trip_driverId t = d")
      case True
      with started(3) have "active_trips s d = []" by simp
      with started(1) show ?thesis by (simp add: active_trips_def)
    next
      case False
      with started(1) have "active_trips s' d = active_trips s d"
        by (simp add: active_trips_def)
      with assms(2) show ?thesis by simp
    qed
  next
    case ended
    then have "length (active_trips s' d) \<le> length (active_trips s d)"
      by (simp add: active_trips_def active_after_patch)
    with assms(2) show ?thesis using le_trans by blast
  qed
qed

lemma reachable_active_trips: "reachable s \<Longrightarrow> \<forall>d. length (active_trips s d) \<le> 1"
proof (induction rule: reachable.induct)
  case reachable_empty
  show ?case by (simp add: active_trips_def empty_db_def)
next
  case (reachable_step s now caller c s')
  then show ?case using active_trips_step [of s caller now c s'] by blast
qed

lemma replay_reachable:
  "reachable s \<Longrightarrow> list_all (\<lambda>(caller, now, c). 0 < now) cs \<Longrightarrow> reachable (replay s cs)"
proof (induction cs arbitrary: s)
  case Nil
  then show ?case by simp
next
  case (Cons x cs)
  obtain caller now c where x: "x = (caller, now, c)" by (cases x)
  define s1 where "s1 = (case exec s caller now c of Inl e \<Rightarrow> s | Inr s' \<Rightarrow> s')"
  from Cons.prems x have "reachable s1"
    unfolding s1_def by (auto split: sum.splits intro: reachable_step)
  with Cons.IH Cons.prems(2) have "reachable (replay s1 cs)" by simp
  with x show ?case by (simp add: s1_def)
qed

section \<open>What scanPassenger returns\<close>

lemma find_filter_None:
  "find P (filter Q xs) = None \<longleftrightarrow> filter (\<lambda>x. Q x \<and> P x) xs = []"
  by (auto simp: find_None_iff filter_empty_conv)

lemma scanPassenger_cases:
  assumes "requireDriverRole s caller = Inr (user, membership)"
    and "db_get trip_id (tripSessions s) t = Some trip"
    and "trip_driverId trip = u_id user"
    and "trip_status trip = Active"
    and "find (\<lambda>x. pas_qrCode x = qr) (passengers s) = Some passenger"
    and "pas_operatorId passenger = mem_operatorId membership"
  shows "scanPassenger s caller now t qr =
     (if scan_rows s t (pas_id passenger) \<noteq> []
      then Inr (s, \<lparr>res_passenger = passenger, res_status = AlreadyScanned\<rparr>)
      else Inr (s\<lparr>scans := scans s @
                    [\<lparr>scan_id = next_id s,
                      scan_operatorId = mem_operatorId membership,
                      scan_tripSessionId = t,
                      scan_passengerId = pas_id passenger,
                      scan_scannedAt = now,
                      scan_scannedBy = u_id user\<rparr>],
                  next_id := Suc (next_id s)\<rparr>,
                \<lparr>res_passenger = passenger, res_status = Success\<rparr>))"
proof (cases "find (\<lambda>sc. scan_passengerId sc = pas_id passenger)
                (filter (\<lambda>sc. scan_tripSessionId sc = t) (scans s))")
  case None
  then have "scan_rows s t (pas_id passenger) = []"
    by (simp add: find_filter_None scan_rows_def)
  with None assms show ?thesis by (simp add: scanPassenger_def)
next
  case (Some sc)
  then have "scan_rows s t (pas_id passenger) \<noteq> []"
    using find_filter_None [of "\<lambda>sc. scan_passengerId sc = pas_id passenger"
        "\<lambda>sc. scan_tripSessionId sc = t" "scans s"]
    by (simp add: scan_rows_def)
  with Some assms show ?thesis by (simp add: scanPassenger_def)
qed

lemma scanPassenger_success:
  assumes "scanPassenger s caller now t qr = Inr (s1, r1)"
  shows "\<exists>user membership trip passenger.
           requireDriverRole s caller = Inr (user, membership) \<and>
           db_get trip_id (tripSessions s) t = Some trip \<and>
           trip_driverId trip = u_id user \<and>
           trip_status trip = Active \<and>
           find (\<lambda>x. pas_qrCode x = qr) (passengers s) = Some passenger \<and>
           pas_operatorId passenger = mem_operatorId membership"
  using assms
  by (simp add: scanPassenger_def split: sum.splits prod.splits option.splits if_splits)

lemma requireDriverRole_members:
  "members s' = members s \<Longrightarrow> requireDriverRole s' caller = requireDriverRole s caller"
  by (cases caller) (simp_all add: requireDriverRole_def)

lemma scanPassenger_effect:
  assumes "scanPassenger s caller now t qr = Inr (s1, r1)"
  shows "\<exists>user membership trip passenger.
           requireDriverRole s caller = Inr (user, membership) \<and>
           db_get trip_id (tripSessions s) t = Some trip \<and>
           trip_driverId trip = u_id user \<and>
           trip_status trip = Active \<and>
           find (\<lambda>x. pas_qrCode x = qr) (passengers s) = Some passenger \<and>
           pas_operatorId passenger = mem_operatorId membership \<and>
           members s1 = members s \<and> tripSessions s1 = tripSessions s \<and>
           passengers s1 = passengers s \<and> res_passenger r1 = passenger \<and>
           scan_rows s1 t (pas_id passenger) \<noteq> []"
proof -
  from scanPassenger_success [OF assms] obtain user membership trip passenger where
    pre: "requireDriverRole s caller = Inr (user, membership)"
      "db_get trip_id (tripSessions s) t = Some trip"
      "trip_driverId trip = u_id user" "trip_status trip = Active"
      "find (\<lambda>x. pas_qrCode x = qr) (passengers s) = Some passenger"
      "pas_operatorId passenger = mem_operatorId membership"
    by blast
  note first = scanPassenger_cases [OF pre, of now]
  have "members s1 = members s \<and> tripSessions s1 = tripSessions s \<and>
      passengers s1 = passengers s \<and> res_passenger r1 = passenger \<and>
      scan_rows s1 t (pas_id passenger) \<noteq> []"
  proof (cases "scan_rows s t (pas_id passenger) = []")
    case True
    with first assms have "s1 = s\<lparr>scans := scans s @
                    [\<lparr>scan_id = next_id s,
                      scan_operatorId = mem_operatorId membership,
                      scan_tripSessionId = t,
                      scan_passengerId = pas_id passenger,
                      scan_scannedAt = now,
                      scan_scannedBy = u_id user\<rparr>],
                  next_id := Suc (next_id s)\<rparr>"
      and "r1 = \<lparr>res_passenger = passenger, res_status = Success\<rparr>" by simp_all
    then show ?thesis by (simp add: scan_rows_def)
  next
    case False
    with first assms have "s1 = s"
      and "r1 = \<lparr>res_passenger = passenger, res_status = AlreadyScanned\<rparr>" by simp_all
    with False show ?thesis by simp
  qed
  with pre show ?thesis by blast
qed

lemma scanPassenger_scanned:
  assumes "scanPassenger s caller now t qr = Inr (s1, r1)"
  shows "scan_rows s1 t (pas_id (res_passenger r1)) \<noteq> []"
  using scanPassenger_effect [OF assms] by auto

lemma scanPassenger_again:
  assumes "scanPassenger s caller now t qr = Inr (s1, r1)"
  shows "scanPassenger s1 caller now' t qr = Inr (s1, r1\<lparr>res_status := AlreadyScanned\<rparr>)"
proof -
  from scanPassenger_effect [OF assms] obtain user membership trip passenger where
    pre: "requireDriverRole s caller = Inr (user, membership)"
      "db_get trip_id (tripSessions s) t = Some trip"
      "trip_driverId trip = u_id user" "trip_status trip = Active"
      "find (\<lambda>x. pas_qrCode x = qr) (passengers s) = Some passenger"
      "pas_operatorId passenger = mem_operatorId membership"
    and s1: "members s1 = members s" "tripSessions s1 = tripSessions s"
      "passengers s1 = passengers s" "res_passenger r1 = passenger"
      "scan_rows s1 t (pas_id passenger) \<noteq> []"
    by blast
  have pre1: "requireDriverRole s1 caller = Inr (user, membership)"
    "db_get trip_id (tripSessions s1) t = Some trip"
    "find (\<lambda>x. pas_qrCode x = qr) (passengers s1) = Some passenger"
    using pre s1 requireDriverRole_members [of s1 s caller] by simp_all
  from scanPassenger_cases [OF pre1(1,2) pre(3,4) pre1(3) pre(6), of now'] s1
  have "scanPassenger s1 caller now' t qr =
          Inr (s1, \<lparr>res_passenger = res_passenger r1, res_status = AlreadyScanned\<rparr>)"
    by simp
  moreover have "r1\<lparr>res_status := AlreadyScanned\<rparr> =
          \<lparr>res_passenger = res_passenger r1, res_status = AlreadyScanned\<rparr>" by simp
  ultimately show ?thesis by simp
qed

section \<open>Lookups after a patch; startTrip with an active trip\<close>

lemma requireDriverRole_user:
  "requireDriverRole s (Some user) = Inr (u, m) \<Longrightarrow> u = user"
  by (auto simp: requireDriverRole_def split: option.splits if_splits)

lemma db_get_patch:
  assumes "\<And>r. idf (f r) = idf r"
  shows "db_get idf (db_patch idf tbl i f) j =
           (if j = i then map_option f (db_get idf tbl i) else db_get idf tbl j)"
  using assms by (induction tbl) (auto simp: db_get_def db_patch_def)

lemma startTrip_active_fails:
  assumes "active_trips s (u_id user) \<noteq> []"
  shows "\<exists>e. startTrip s (Some user) now routeId = Inl e"
proof -
  from assms have found:
    "find (\<lambda>t. trip_driverId t = u_id user \<and> trip_status t = Active) (tripSessions s) \<noteq> None"
    by (auto simp: active_trips_def find_None_iff filter_empty_conv)
  show ?thesis
  proof (cases "requireDriverRole s (Some user)")
    case (Inl e)
    then show ?thesis by (simp add: startTrip_def)
  next
    case (Inr um)
    obtain u m where um: "um = (u, m)" by (cases um)
    with Inr requireDriverRole_user have "u = user" by blast
    with Inr um found show ?thesis
      by (auto simp: startTrip_def split: option.splits)
  qed
qed

section \<open>The scenario, evaluated\<close>

lemmas scenario_defs =
  owner_user_def business_user_def driver_user_def stranger_user_def alice_qr_def
  invite_calls_def register_calls_def empty_db_def
  alice_def bob_def driver_member_def business_member_def first_trip_def downtown_def
  db_get_def db_patch_def db_delete_def display_name_def
  requireDriverRole_def requireOperatorRole_def requireBusinessRole_def requireMembership_def

lemma invited_db_eq:
  "invited_db =
     \<lparr>operators = [\<lparr>op_id = 0, op_name = ''Acme'', op_slug = ''acme'', op_ownerId = ''U1'',
                     op_createdAt = 1000\<rparr>],
      members = [\<lparr>mem_id = 1, mem_operatorId = 0, mem_userId = ''U1'', mem_role = Operator,
                   mem_email = ''u1@x.com'', mem_name = ''Una'', mem_createdAt = 1000\<rparr>],
      routes = [downtown],
      passengers = [],
      tripSessions = [],
      scans = [],
      invites = [\<lparr>inv_id = 3, inv_operatorId = 0, inv_email = ''u2@x.com'',
                   inv_role = InviteBusiness, inv_token = ''tokB'', inv_createdAt = 1002,
                   inv_expiresAt = 604801002, inv_usedAt = None\<rparr>,
                 \<lparr>inv_id = 4, inv_operatorId = 0, inv_email = ''u3@x.com'',
                   inv_role = InviteDriver, inv_token = ''tokD'', inv_createdAt = 1003,
                   inv_expiresAt = 604801003, inv_usedAt = None\<rparr>],
      scheduled = [SendInviteEmail ''u2@x.com'' ''Acme'' InviteBusiness ''tokB'',
                   SendInviteEmail ''u3@x.com'' ''Acme'' InviteDriver ''tokD''],
      next_id = 5\<rparr>"
  unfolding invited_db_def
  by (simp add: scenario_defs createOperator_def createRoute_def createInvite_def)

lemma joined_db_eq:
  "joined_db = invited_db
     \<lparr>members := [\<lparr>mem_id = 1, mem_operatorId = 0, mem_userId = ''U1'', mem_role = Operator,
                   mem_email = ''u1@x.com'', mem_name = ''Una'', mem_createdAt = 1000\<rparr>,
                  business_member],
      invites := [\<lparr>inv_id = 3, inv_operatorId = 0, inv_email = ''u2@x.com'',
                   inv_role = InviteBusiness, inv_token = ''tokB'', inv_createdAt = 1002,
                   inv_expiresAt = 604801002, inv_usedAt = Some 1004\<rparr>,
                 \<lparr>inv_id = 4, inv_operatorId = 0, inv_email = ''u3@x.com'',
                   inv_role = InviteDriver, inv_token = ''tokD'', inv_createdAt = 1003,
                   inv_expiresAt = 604801003, inv_usedAt = None\<rparr>],
      next_id := 6\<rparr>"
  unfolding joined_db_def invited_db_eq
  by (simp add: scenario_defs acceptInvite_def)

lemma registered_db_eq:
  "registered_db =
     \<lparr>operators = [\<lparr>op_id = 0, op_name = ''Acme'', op_slug = ''acme'', op_ownerId = ''U1'',
                     op_createdAt = 1000\<rparr>],
      members = [\<lparr>mem_id = 1, mem_operatorId = 0, mem_userId = ''U1'', mem_role = Operator,
                   mem_email = ''u1@x.com'', mem_name = ''Una'', mem_createdAt = 1000\<rparr>,
                 business_member, driver_member],
      routes = [downtown],
      passengers = [alice],
      tripSessions = [],
      scans = [],
      invites = [\<lparr>inv_id = 3, inv_operatorId = 0, inv_email = ''u2@x.com'',
                   inv_role = InviteBusiness, inv_token = ''tokB'', inv_createdAt = 1002,
                   inv_expiresAt = 604801002, inv_usedAt = Some 1004\<rparr>,
                 \<lparr>inv_id = 4, inv_operatorId = 0, inv_email = ''u3@x.com'',
                   inv_role = InviteDriver, inv_token = ''tokD'', inv_createdAt = 1003,
                   inv_expiresAt = 604801003, inv_usedAt = Some 1005\<rparr>],
      scheduled = [SendInviteEmail ''u2@x.com'' ''Acme'' InviteBusiness ''tokB'',
                   SendInviteEmail ''u3@x.com'' ''Acme'' InviteDriver ''tokD'',
                   SendTicketEmail ''alice@x.com'' ''Alice'' ''Acme'' ''SAVARI-abcdefghijkl''],
      next_id = 8\<rparr>"
  unfolding registered_db_def joined_db_eq invited_db_eq
  by (simp add: scenario_defs acceptInvite_def createPassenger_def)

lemma trip_db_eq:
  "trip_db = registered_db
     \<lparr>tripSessions := [first_trip], next_id := 9\<rparr>"
  unfolding trip_db_def registered_db_eq
  by (simp add: scenario_defs startTrip_def)

lemma scanned_db_eq:
  "scanned_db = trip_db
     \<lparr>scans := [\<lparr>scan_id = 9, scan_operatorId = 0, scan_tripSessionId = 8,
                  scan_passengerId = 7, scan_scannedAt = 1008, scan_scannedBy = ''U3''\<rparr>],
      next_id := 10\<rparr>"
  unfolding scanned_db_def trip_db_eq registered_db_eq
  by (simp add: scenario_defs scanPassenger_def)

lemma ended_db_eq:
  "ended_db = scanned_db
     \<lparr>tripSessions := [\<lparr>trip_id = 8, trip_operatorId = 0, trip_routeId = 2,
                         trip_driverId = ''U3'', trip_startedAt = 1007,
                         trip_endedAt = Some 1009, trip_status = Completed\<rparr>]\<rparr>"
  unfolding ended_db_def scanned_db_eq trip_db_eq registered_db_eq
  by (simp add: scenario_defs endTrip_def)

lemma archived_db_eq:
  "archived_db = trip_db
     \<lparr>passengers := [\<lparr>pas_id = 7, pas_operatorId = 0, pas_businessId = ''U2'',
                       pas_name = ''Alice'', pas_email = ''alice@x.com'',
                       pas_qrCode = ''SAVARI-abcdefghijkl'', pas_createdAt = 1006,
                       pas_archivedAt = Some 2000\<rparr>]\<rparr>"
  unfolding archived_db_def trip_db_eq registered_db_eq
  by (simp add: scenario_defs archivePassenger_def)

lemma listed_db_eq:
  "listed_db = archived_db
     \<lparr>passengers := [alice\<lparr>pas_archivedAt := Some 2000\<rparr>, bob],
      scheduled := scheduled registered_db @
        [SendTicketEmail ''bob@x.com'' ''Bob'' ''Acme'' ''SAVARI-mnopqrstuvwx''],
      next_id := 10\<rparr>"
  unfolding listed_db_def archived_db_eq trip_db_eq registered_db_eq
  by (simp add: scenario_defs createPassenger_def)

lemma reachable_invited_db: "reachable invited_db"
  unfolding invited_db_def
  by (rule replay_reachable [OF reachable_empty]) (simp add: invite_calls_def)

lemma reachable_joined_db: "reachable joined_db"
  unfolding joined_db_def
  by (rule replay_reachable [OF reachable_invited_db]) simp

lemma reachable_registered_db: "reachable registered_db"
  unfolding registered_db_def
  by (rule replay_reachable [OF reachable_joined_db]) (simp add: register_calls_def)

lemma reachable_trip_db: "reachable trip_db"
  unfolding trip_db_def
  by (rule replay_reachable [OF reachable_registered_db]) simp

lemma reachable_scanned_db: "reachable scanned_db"
  unfolding scanned_db_def
  by (rule replay_reachable [OF reachable_trip_db]) simp

lemma reachable_ended_db: "reachable ended_db"
  unfolding ended_db_def
  by (rule replay_reachable [OF reachable_scanned_db]) simp

lemma reachable_archived_db: "reachable archived_db"
  unfolding archived_db_def
  by (rule replay_reachable [OF reachable_trip_db]) simp

lemma reachable_listed_db: "reachable listed_db"
  unfolding listed_db_def
  by (rule replay_reachable [OF reachable_archived_db]) simp

section \<open>Properties\<close>

text \<open>
  C1. In every reachable state each (trip session, passenger) pair has at most one Scan
  row. When the caller is the driver owning the active trip and the QR code resolves to a
  passenger of the driver's operator, \<open>scanPassenger\<close> returns without error: if a
  Scan of the pair exists, the status is \<open>already_scanned\<close>, the passenger record is
  returned and the database is unchanged; otherwise exactly one Scan row is appended and
  the status is \<open>success\<close>. After any successful call the pair has exactly one row and
  the same call again answers \<open>already_scanned\<close> without writing. Whatever the clock
  reads, a committed call from a reachable state leaves at most one row per pair.
\<close>

theorem scan_at_most_once:
  assumes "reachable s"
  shows "length (scan_rows s t p) \<le> 1 \<and>
    (exec s caller2 clock c = Inr s2 \<longrightarrow> length (scan_rows s2 t p) \<le> 1) \<and>
    (requireDriverRole s caller = Inr (user, membership) \<and>
     db_get trip_id (tripSessions s) t = Some trip \<and>
     trip_driverId trip = u_id user \<and> trip_status trip = Active \<and>
     find (\<lambda>x. pas_qrCode x = qr) (passengers s) = Some passenger \<and>
     pas_operatorId passenger = mem_operatorId membership \<and> pas_id passenger = p \<longrightarrow>
       (if scan_rows s t p \<noteq> []
        then scanPassenger s caller now t qr =
               Inr (s, \<lparr>res_passenger = passenger, res_status = AlreadyScanned\<rparr>)
        else scanPassenger s caller now t qr =
               Inr (s\<lparr>scans := scans s @
                       [\<lparr>scan_id = next_id s,
                         scan_operatorId = mem_operatorId membership,
                         scan_tripSessionId = t,
                         scan_passengerId = p,
                         scan_scannedAt = now,
                         scan_scannedBy = u_id user\<rparr>],
                     next_id := Suc (next_id s)\<rparr>,
                   \<lparr>res_passenger = passenger, res_status = Success\<rparr>))) \<and>
    (scanPassenger s caller now t qr = Inr (s1, r1) \<longrightarrow>
       length (scan_rows s1 t (pas_id (res_passenger r1))) = 1 \<and>
       scanPassenger s1 caller now' t qr = Inr (s1, r1\<lparr>res_status := AlreadyScanned\<rparr>))"
proof (intro conjI impI)
  from assms show "length (scan_rows s t p) \<le> 1"
    using reachable_scan_rows by blast
next
  assume "exec s caller2 clock c = Inr s2"
  from scan_rows_step [OF this] assms reachable_scan_rows
  show "length (scan_rows s2 t p) \<le> 1" by blast
next
  assume "requireDriverRole s caller = Inr (user, membership) \<and>
     db_get trip_id (tripSessions s) t = Some trip \<and>
     trip_driverId trip = u_id user \<and> trip_status trip = Active \<and>
     find (\<lambda>x. pas_qrCode x = qr) (passengers s) = Some passenger \<and>
     pas_operatorId passenger = mem_operatorId membership \<and> pas_id passenger = p"
  then have pre: "requireDriverRole s caller = Inr (user, membership)"
     "db_get trip_id (tripSessions s) t = Some trip"
     "trip_driverId trip = u_id user" "trip_status trip = Active"
     "find (\<lambda>x. pas_qrCode x = qr) (passengers s) = Some passenger"
     "pas_operatorId passenger = mem_operatorId membership" and p: "pas_id passenger = p"
    by simp_all
  from scanPassenger_cases [OF pre, of now] p
  show "if scan_rows s t p \<noteq> []
        then scanPassenger s caller now t qr =
               Inr (s, \<lparr>res_passenger = passenger, res_status = AlreadyScanned\<rparr>)
        else scanPassenger s caller now t qr =
               Inr (s\<lparr>scans := scans s @
                       [\<lparr>scan_id = next_id s,
                         scan_operatorId = mem_operatorId membership,
                         scan_tripSessionId = t,
                         scan_passengerId = p,
                         scan_scannedAt = now,
                         scan_scannedBy = u_id user\<rparr>],
                     next_id := Suc (next_id s)\<rparr>,
                   \<lparr>res_passenger = passenger, res_status = Success\<rparr>)"
    by (simp split: if_splits)
next
  assume ok: "scanPassenger s caller now t qr = Inr (s1, r1)"
  then have "exec s caller now (ScanPassenger t qr) = Inr s1" by simp
  from scan_rows_step [OF this] assms reachable_scan_rows
  have le: "length (scan_rows s1 t (pas_id (res_passenger r1))) \<le> 1" by blast
  from scanPassenger_scanned [OF ok] have "scan_rows s1 t (pas_id (res_passenger r1)) \<noteq> []" .
  then have "length (scan_rows s1 t (pas_id (res_passenger r1))) \<noteq> 0" by simp
  with le show "length (scan_rows s1 t (pas_id (res_passenger r1))) = 1" by linarith
next
  assume "scanPassenger s caller now t qr = Inr (s1, r1)"
  then show "scanPassenger s1 caller now' t qr = Inr (s1, r1\<lparr>res_status := AlreadyScanned\<rparr>)"
    by (rule scanPassenger_again)
qed

theorem scan_at_most_once_witness:
  "reachable trip_db \<and>
   length (scan_rows trip_db 8 7) \<le> 1 \<and>
   scanPassenger trip_db (Some driver_user) 1008 8 alice_qr =
     Inr (scanned_db, \<lparr>res_passenger = alice, res_status = Success\<rparr>) \<and>
   length (scan_rows scanned_db 8 7) = 1 \<and>
   scanPassenger scanned_db (Some driver_user) 1010 8 alice_qr =
     Inr (scanned_db, \<lparr>res_passenger = alice, res_status = AlreadyScanned\<rparr>)"
proof -
  have pre: "requireDriverRole trip_db (Some driver_user) = Inr (driver_user, driver_member) \<and>
     db_get trip_id (tripSessions trip_db) 8 = Some first_trip \<and>
     trip_driverId first_trip = u_id driver_user \<and> trip_status first_trip = Active \<and>
     find (\<lambda>x. pas_qrCode x = alice_qr) (passengers trip_db) = Some alice \<and>
     pas_operatorId alice = mem_operatorId driver_member \<and> pas_id alice = 7"
    by (simp add: trip_db_eq registered_db_eq scenario_defs)
  have rows: "scan_rows trip_db 8 7 = []"
    by (simp add: scan_rows_def trip_db_eq registered_db_eq)
  note inst = scan_at_most_once [OF reachable_trip_db, of 8 7 "Some driver_user" 1008
      "ScanPassenger 8 alice_qr" scanned_db "Some driver_user" driver_user
      driver_member first_trip alice_qr alice 1008 _ _ 1010]
  from inst pre rows have first:
    "scanPassenger trip_db (Some driver_user) 1008 8 alice_qr =
       Inr (scanned_db, \<lparr>res_passenger = alice, res_status = Success\<rparr>)"
    by (simp add: scanned_db_eq trip_db_eq registered_db_eq scenario_defs)
  with inst [of scanned_db "\<lparr>res_passenger = alice, res_status = Success\<rparr>"]
  show ?thesis using reachable_trip_db by (simp add: alice_def)
qed

text \<open>
  C2. In every reachable state a driver has at most one TripSession with status
  \<open>active\<close>, and every committed mutation keeps it so. A \<open>startTrip\<close> call by a
  caller who already has an active trip is rejected and writes nothing; when the caller is
  a driver and the route belongs to the driver's operator the error is the conflict
  "You already have an active trip".
\<close>

theorem one_active_trip_per_driver:
  "(reachable s \<longrightarrow> length (active_trips s d) \<le> 1) \<and>
   ((\<forall>d'. length (active_trips s d') \<le> 1) \<and> exec s caller now c = Inr s' \<longrightarrow>
      length (active_trips s' d) \<le> 1) \<and>
   (caller = Some user \<and> active_trips s (u_id user) \<noteq> [] \<longrightarrow>
      (\<exists>e. startTrip s caller now routeId = Inl e) \<and>
      state_after s (startTrip s caller now routeId) = s \<and>
      (requireDriverRole s caller = Inr (user, membership) \<and>
       db_get rt_id (routes s) routeId = Some route \<and>
       rt_operatorId route = mem_operatorId membership \<longrightarrow>
         startTrip s caller now routeId = Inl ActiveTripExists))"
proof (intro conjI impI)
  assume "reachable s"
  then show "length (active_trips s d) \<le> 1" using reachable_active_trips by blast
next
  assume "(\<forall>d'. length (active_trips s d') \<le> 1) \<and> exec s caller now c = Inr s'"
  then show "length (active_trips s' d) \<le> 1" using active_trips_step by blast
next
  assume a: "caller = Some user \<and> active_trips s (u_id user) \<noteq> []"
  with startTrip_active_fails show fails: "\<exists>e. startTrip s caller now routeId = Inl e"
    by blast
  then show "state_after s (startTrip s caller now routeId) = s"
    by (auto simp: state_after_def)
next
  assume a: "caller = Some user \<and> active_trips s (u_id user) \<noteq> []"
    and b: "requireDriverRole s caller = Inr (user, membership) \<and>
       db_get rt_id (routes s) routeId = Some route \<and>
       rt_operatorId route = mem_operatorId membership"
  from a have
    "find (\<lambda>t. trip_driverId t = u_id user \<and> trip_status t = Active) (tripSessions s) \<noteq> None"
    by (auto simp: active_trips_def find_None_iff filter_empty_conv)
  with b show "startTrip s caller now routeId = Inl ActiveTripExists"
    by (auto simp: startTrip_def split: option.splits)
qed

theorem one_active_trip_per_driver_witness:
  "reachable trip_db \<and> length (active_trips trip_db ''U3'') \<le> 1 \<and>
   exec trip_db (Some driver_user) 1008 (ScanPassenger 8 alice_qr) = Inr scanned_db \<and>
   length (active_trips scanned_db ''U3'') \<le> 1 \<and>
   active_trips trip_db (u_id driver_user) \<noteq> [] \<and>
   startTrip trip_db (Some driver_user) 1008 2 = Inl ActiveTripExists \<and>
   state_after trip_db (startTrip trip_db (Some driver_user) 1008 2) = trip_db"
proof -
  have step: "exec trip_db (Some driver_user) 1008 (ScanPassenger 8 alice_qr) = Inr scanned_db"
    by (simp add: scanned_db_eq trip_db_eq registered_db_eq scenario_defs scanPassenger_def)
  have active: "active_trips trip_db (u_id driver_user) \<noteq> []"
    by (simp add: active_trips_def trip_db_eq registered_db_eq scenario_defs)
  have pre: "requireDriverRole trip_db (Some driver_user) = Inr (driver_user, driver_member) \<and>
       db_get rt_id (routes trip_db) 2 = Some downtown \<and>
       rt_operatorId downtown = mem_operatorId driver_member"
    by (simp add: trip_db_eq registered_db_eq scenario_defs)
  note inst = one_active_trip_per_driver [of trip_db "''U3''" "Some driver_user" 1008
      "ScanPassenger 8 alice_qr" scanned_db driver_user 2 driver_member downtown]
  from inst reachable_trip_db reachable_active_trips [OF reachable_trip_db] step active pre
  show ?thesis by (simp add: state_after_def)
qed

text \<open>
  C5. For the driver who owns the trip: \<open>endTrip\<close> on a trip whose status is not
  \<open>active\<close> is rejected with "Trip is not active" and writes nothing; on an active
  trip it sets the status to \<open>completed\<close> and \<open>endedAt\<close> to the current time, and a
  further \<open>endTrip\<close> on the same trip is rejected, so \<open>endedAt\<close> is written once.
\<close>

theorem endTrip_only_active:
  assumes "requireDriverRole s caller = Inr (user, membership)"
    and "db_get trip_id (tripSessions s) tid = Some trip"
    and "trip_driverId trip = u_id user"
  shows "(trip_status trip \<noteq> Active \<longrightarrow>
            endTrip s caller now tid = Inl TripNotActive \<and>
            state_after s (endTrip s caller now tid) = s) \<and>
         (trip_status trip = Active \<longrightarrow>
            endTrip s caller now tid =
              Inr (s\<lparr>tripSessions := db_patch trip_id (tripSessions s) tid
                        (\<lambda>t. t\<lparr>trip_status := Completed, trip_endedAt := Some now\<rparr>)\<rparr>, ()) \<and>
            db_get trip_id (tripSessions (state_after s (endTrip s caller now tid))) tid =
              Some (trip\<lparr>trip_status := Completed, trip_endedAt := Some now\<rparr>) \<and>
            endTrip (state_after s (endTrip s caller now tid)) caller now' tid =
              Inl TripNotActive)"
proof (intro conjI impI)
  assume "trip_status trip \<noteq> Active"
  with assms show no: "endTrip s caller now tid = Inl TripNotActive"
    by (simp add: endTrip_def)
  then show "state_after s (endTrip s caller now tid) = s" by (simp add: state_after_def)
next
  assume act: "trip_status trip = Active"
  with assms show ok: "endTrip s caller now tid =
              Inr (s\<lparr>tripSessions := db_patch trip_id (tripSessions s) tid
                        (\<lambda>t. t\<lparr>trip_status := Completed, trip_endedAt := Some now\<rparr>)\<rparr>, ())"
    by (simp add: endTrip_def)
  define s1 where "s1 = state_after s (endTrip s caller now tid)"
  from ok have s1: "s1 = s\<lparr>tripSessions := db_patch trip_id (tripSessions s) tid
                        (\<lambda>t. t\<lparr>trip_status := Completed, trip_endedAt := Some now\<rparr>)\<rparr>"
    by (simp add: s1_def state_after_def)
  from assms(2) have got: "db_get trip_id (tripSessions s1) tid =
      Some (trip\<lparr>trip_status := Completed, trip_endedAt := Some now\<rparr>)"
    by (simp add: s1 db_get_patch)
  then show "db_get trip_id (tripSessions (state_after s (endTrip s caller now tid))) tid =
              Some (trip\<lparr>trip_status := Completed, trip_endedAt := Some now\<rparr>)"
    by (simp add: s1_def)
  have "requireDriverRole s1 caller = Inr (user, membership)"
    using assms(1) requireDriverRole_members [of s1 s caller] by (simp add: s1)
  with got assms(3) have "endTrip s1 caller now' tid = Inl TripNotActive"
    by (simp add: endTrip_def)
  then show "endTrip (state_after s (endTrip s caller now tid)) caller now' tid =
              Inl TripNotActive" by (simp add: s1_def)
qed

theorem endTrip_only_active_witness:
  "requireDriverRole scanned_db (Some driver_user) = Inr (driver_user, driver_member) \<and>
   db_get trip_id (tripSessions scanned_db) 8 = Some first_trip \<and>
   trip_driverId first_trip = u_id driver_user \<and> trip_status first_trip = Active \<and>
   endTrip scanned_db (Some driver_user) 1009 8 = Inr (ended_db, ()) \<and>
   db_get trip_id (tripSessions ended_db) 8 =
     Some (first_trip\<lparr>trip_status := Completed, trip_endedAt := Some 1009\<rparr>) \<and>
   endTrip ended_db (Some driver_user) 1020 8 = Inl TripNotActive \<and>
   state_after ended_db (endTrip ended_db (Some driver_user) 1020 8) = ended_db"
proof -
  have pre: "requireDriverRole scanned_db (Some driver_user) = Inr (driver_user, driver_member)"
    "db_get trip_id (tripSessions scanned_db) 8 = Some first_trip"
    "trip_driverId first_trip = u_id driver_user"
    by (simp_all add: scanned_db_eq trip_db_eq registered_db_eq scenario_defs)
  have act: "trip_status first_trip = Active" by (simp add: first_trip_def)
  have pre': "requireDriverRole ended_db (Some driver_user) = Inr (driver_user, driver_member)"
    "db_get trip_id (tripSessions ended_db) 8 =
       Some (first_trip\<lparr>trip_status := Completed, trip_endedAt := Some 1009\<rparr>)"
    "trip_driverId (first_trip\<lparr>trip_status := Completed, trip_endedAt := Some 1009\<rparr>) =
       u_id driver_user"
    by (simp_all add: ended_db_eq scanned_db_eq trip_db_eq registered_db_eq scenario_defs)
  have ended: "scanned_db\<lparr>tripSessions := db_patch trip_id (tripSessions scanned_db) 8
                 (\<lambda>t. t\<lparr>trip_status := Completed, trip_endedAt := Some 1009\<rparr>)\<rparr> = ended_db"
    by (simp add: ended_db_eq scanned_db_eq trip_db_eq registered_db_eq scenario_defs)
  from endTrip_only_active [OF pre, of 1009 1020] act ended
    endTrip_only_active [OF pre', of 1020 1020] pre pre'(2)
  show ?thesis by (simp add: state_after_def)
qed

text \<open>
  C6. A completed trip accepts no scans: whoever calls \<open>scanPassenger\<close> against a trip
  whose status is \<open>completed\<close>, the call is rejected and writes nothing; for the
  driver who owns the trip the error is "Trip is not active".
\<close>

theorem completed_trip_rejects_scans:
  assumes "db_get trip_id (tripSessions s) tid = Some trip"
    and "trip_status trip = Completed"
  shows "(\<exists>e. scanPassenger s caller now tid qr = Inl e) \<and>
         state_after s (scanPassenger s caller now tid qr) = s \<and>
         (requireDriverRole s caller = Inr (user, membership) \<and>
          trip_driverId trip = u_id user \<longrightarrow>
            scanPassenger s caller now tid qr = Inl TripNotActive)"
proof -
  have fails: "\<exists>e. scanPassenger s caller now tid qr = Inl e"
  proof (cases "requireDriverRole s caller")
    case (Inl e)
    then show ?thesis by (simp add: scanPassenger_def)
  next
    case (Inr um)
    with assms show ?thesis by (cases um) (simp add: scanPassenger_def)
  qed
  then have "state_after s (scanPassenger s caller now tid qr) = s"
    by (auto simp: state_after_def)
  moreover from assms have "requireDriverRole s caller = Inr (user, membership) \<and>
          trip_driverId trip = u_id user \<longrightarrow>
            scanPassenger s caller now tid qr = Inl TripNotActive"
    by (simp add: scanPassenger_def)
  ultimately show ?thesis using fails by blast
qed

theorem completed_trip_rejects_scans_witness:
  "db_get trip_id (tripSessions ended_db) 8 =
     Some (first_trip\<lparr>trip_status := Completed, trip_endedAt := Some 1009\<rparr>) \<and>
   scanPassenger ended_db (Some driver_user) 1010 8 alice_qr = Inl TripNotActive \<and>
   state_after ended_db (scanPassenger ended_db (Some driver_user) 1010 8 alice_qr) = ended_db"
proof -
  have pre: "db_get trip_id (tripSessions ended_db) 8 =
       Some (first_trip\<lparr>trip_status := Completed, trip_endedAt := Some 1009\<rparr>)"
    "trip_status (first_trip\<lparr>trip_status := Completed, trip_endedAt := Some 1009\<rparr>) = Completed"
    by (simp_all add: ended_db_eq scanned_db_eq trip_db_eq registered_db_eq scenario_defs)
  have drv: "requireDriverRole ended_db (Some driver_user) = Inr (driver_user, driver_member) \<and>
       trip_driverId (first_trip\<lparr>trip_status := Completed, trip_endedAt := Some 1009\<rparr>) =
         u_id driver_user"
    by (simp add: ended_db_eq scanned_db_eq trip_db_eq registered_db_eq scenario_defs)
  from completed_trip_rejects_scans [OF pre, of "Some driver_user" 1010 alice_qr
      driver_user driver_member] drv pre(1)
  show ?thesis by (simp add: state_after_def)
qed

subsection \<open>Invites\<close>

lemma find_map_same:
  assumes "find P xs = Some x" and "\<And>y. P (f y) = P y"
  shows "find P (map f xs) = Some (f x)"
  using assms by (induction xs) (auto split: if_splits)

lemma acceptInvite_effect:
  assumes "acceptInvite s caller now token = Inr (s', r)"
  shows "\<exists>user invite. caller = Some user \<and>
           find (\<lambda>i. inv_token i = token) (invites s) = Some invite \<and>
           \<not> truthy (inv_usedAt invite) \<and> \<not> inv_expiresAt invite < now \<and>
           find (\<lambda>m. mem_userId m = u_id user) (members s) = None \<and>
           r = inv_operatorId invite \<and>
           s' = s\<lparr>members := members s @
                     [\<lparr>mem_id = next_id s,
                       mem_operatorId = inv_operatorId invite,
                       mem_userId = u_id user,
                       mem_role = role_of_invite (inv_role invite),
                       mem_email = u_email user,
                       mem_name = display_name user,
                       mem_createdAt = now\<rparr>],
                   invites := db_patch inv_id (invites s) (inv_id invite)
                     (\<lambda>i. i\<lparr>inv_usedAt := Some now\<rparr>),
                   next_id := Suc (next_id s)\<rparr>"
  using assms
  by (auto simp: acceptInvite_def split: option.splits if_splits)

lemma acceptInvite_marks_used:
  assumes "acceptInvite s caller now token = Inr (s', r)"
  shows "\<exists>invite. find (\<lambda>i. inv_token i = token) (invites s') = Some invite \<and>
           inv_usedAt invite = Some now"
proof -
  from acceptInvite_effect [OF assms] obtain invite where
    inv: "find (\<lambda>i. inv_token i = token) (invites s) = Some invite"
    and s': "invites s' = db_patch inv_id (invites s) (inv_id invite)
                     (\<lambda>i. i\<lparr>inv_usedAt := Some now\<rparr>)"
    by auto
  have "find (\<lambda>i. inv_token i = token)
          (map (\<lambda>r. if inv_id r = inv_id invite then r\<lparr>inv_usedAt := Some now\<rparr> else r)
             (invites s)) =
        Some (if inv_id invite = inv_id invite then invite\<lparr>inv_usedAt := Some now\<rparr> else invite)"
    by (rule find_map_same [OF inv]) simp
  with s' show ?thesis by (simp add: db_patch_def)
qed

lemma reachable_used_truthy:
  assumes "reachable s" and "find (\<lambda>i. inv_token i = token) (invites s) = Some invite"
    and "inv_usedAt invite \<noteq> None"
  shows "truthy (inv_usedAt invite)"
proof -
  from assms(2) have "invite \<in> set (invites s)" by (auto simp: find_Some_iff)
  with reachable_stamps_nonzero [OF assms(1)] have "inv_usedAt invite \<noteq> Some 0"
    by (simp add: stamps_nonzero_def list_all_iff)
  with assms(3) show ?thesis by (cases "inv_usedAt invite") auto
qed

text \<open>
  C7. An invite is usable once and is dead once expired. For an authenticated caller,
  \<open>acceptInvite\<close> is rejected on an unknown token ("Invalid invite"), on an invite
  whose \<open>usedAt\<close> is set ("Invite already used"; the code tests the field for
  truthiness, and in every reachable state a set \<open>usedAt\<close> is a non-zero time), on an
  invite whose \<open>expiresAt\<close> is before the current time whatever \<open>usedAt\<close> is, and
  whenever the caller already has a Member row. A call that succeeds appends the Member row
  and marks the invite used in the same committed state, and any later call with the same
  token is rejected as already used.
\<close>

theorem acceptInvite_single_use:
  "(find (\<lambda>i. inv_token i = token) (invites s) = None \<longrightarrow>
      acceptInvite s (Some user) now token = Inl InvalidInvite) \<and>
   (find (\<lambda>i. inv_token i = token) (invites s) = Some invite \<and>
    inv_usedAt invite = Some used \<and> used \<noteq> 0 \<longrightarrow>
      acceptInvite s (Some user) now token = Inl InviteAlreadyUsed) \<and>
   (reachable s \<and> find (\<lambda>i. inv_token i = token) (invites s) = Some invite \<and>
    inv_usedAt invite \<noteq> None \<longrightarrow>
      acceptInvite s (Some user) now token = Inl InviteAlreadyUsed) \<and>
   (find (\<lambda>i. inv_token i = token) (invites s) = Some invite \<and>
    inv_expiresAt invite < now \<longrightarrow>
      acceptInvite s (Some user) now token =
        Inl (if truthy (inv_usedAt invite) then InviteAlreadyUsed else InviteExpired)) \<and>
   (find (\<lambda>m. mem_userId m = u_id user) (members s) = Some existing \<longrightarrow>
      (\<exists>e. acceptInvite s (Some user) now token = Inl e) \<and>
      (find (\<lambda>i. inv_token i = token) (invites s) = Some invite \<and>
       \<not> truthy (inv_usedAt invite) \<and> \<not> inv_expiresAt invite < now \<longrightarrow>
         acceptInvite s (Some user) now token = Inl AlreadyMember)) \<and>
   (acceptInvite s (Some user) now token = Inr (s', r) \<longrightarrow>
      (\<exists>inv. find (\<lambda>i. inv_token i = token) (invites s) = Some inv \<and>
         r = inv_operatorId inv \<and>
         s' = s\<lparr>members := members s @
                   [\<lparr>mem_id = next_id s,
                     mem_operatorId = inv_operatorId inv,
                     mem_userId = u_id user,
                     mem_role = role_of_invite (inv_role inv),
                     mem_email = u_email user,
                     mem_name = display_name user,
                     mem_createdAt = now\<rparr>],
                 invites := db_patch inv_id (invites s) (inv_id inv)
                   (\<lambda>i. i\<lparr>inv_usedAt := Some now\<rparr>),
                 next_id := Suc (next_id s)\<rparr>) \<and>
      (now \<noteq> 0 \<longrightarrow> acceptInvite s' (Some user') now' token = Inl InviteAlreadyUsed))"
proof (intro conjI impI)
  assume "find (\<lambda>i. inv_token i = token) (invites s) = None"
  then show "acceptInvite s (Some user) now token = Inl InvalidInvite"
    by (simp add: acceptInvite_def)
next
  assume "find (\<lambda>i. inv_token i = token) (invites s) = Some invite \<and>
    inv_usedAt invite = Some used \<and> used \<noteq> 0"
  then show "acceptInvite s (Some user) now token = Inl InviteAlreadyUsed"
    by (simp add: acceptInvite_def)
next
  assume a: "reachable s \<and> find (\<lambda>i. inv_token i = token) (invites s) = Some invite \<and>
    inv_usedAt invite \<noteq> None"
  then have "truthy (inv_usedAt invite)" using reachable_used_truthy by blast
  with a show "acceptInvite s (Some user) now token = Inl InviteAlreadyUsed"
    by (simp add: acceptInvite_def)
next
  assume "find (\<lambda>i. inv_token i = token) (invites s) = Some invite \<and>
    inv_expiresAt invite < now"
  then show "acceptInvite s (Some user) now token =
        Inl (if truthy (inv_usedAt invite) then InviteAlreadyUsed else InviteExpired)"
    by (simp add: acceptInvite_def)
next
  assume "find (\<lambda>m. mem_userId m = u_id user) (members s) = Some existing"
  then show "\<exists>e. acceptInvite s (Some user) now token = Inl e"
    by (simp add: acceptInvite_def split: option.splits)
next
  assume "find (\<lambda>m. mem_userId m = u_id user) (members s) = Some existing"
    and "find (\<lambda>i. inv_token i = token) (invites s) = Some invite \<and>
       \<not> truthy (inv_usedAt invite) \<and> \<not> inv_expiresAt invite < now"
  then show "acceptInvite s (Some user) now token = Inl AlreadyMember"
    by (simp add: acceptInvite_def)
next
  assume "acceptInvite s (Some user) now token = Inr (s', r)"
  from acceptInvite_effect [OF this]
  show "\<exists>inv. find (\<lambda>i. inv_token i = token) (invites s) = Some inv \<and>
         r = inv_operatorId inv \<and>
         s' = s\<lparr>members := members s @
                   [\<lparr>mem_id = next_id s,
                     mem_operatorId = inv_operatorId inv,
                     mem_userId = u_id user,
                     mem_role = role_of_invite (inv_role inv),
                     mem_email = u_email user,
                     mem_name = display_name user,
                     mem_createdAt = now\<rparr>],
                 invites := db_patch inv_id (invites s) (inv_id inv)
                   (\<lambda>i. i\<lparr>inv_usedAt := Some now\<rparr>),
                 next_id := Suc (next_id s)\<rparr>"
    by auto
next
  assume "acceptInvite s (Some user) now token = Inr (s', r)" and nz: "now \<noteq> 0"
  from acceptInvite_marks_used [OF this(1)] obtain invite where
    "find (\<lambda>i. inv_token i = token) (invites s') = Some invite" "inv_usedAt invite = Some now"
    by blast
  with nz show "acceptInvite s' (Some user') now' token = Inl InviteAlreadyUsed"
    by (simp add: acceptInvite_def)
qed


theorem acceptInvite_single_use_witness:
  "reachable registered_db \<and>
   acceptInvite registered_db (Some stranger_user) 2000 ''nope'' = Inl InvalidInvite \<and>
   acceptInvite registered_db (Some stranger_user) 2000 ''tokB'' = Inl InviteAlreadyUsed \<and>
   acceptInvite invited_db (Some business_user) 604801003 ''tokB'' = Inl InviteExpired \<and>
   acceptInvite invited_db (Some owner_user) 1004 ''tokB'' = Inl AlreadyMember \<and>
   acceptInvite invited_db (Some business_user) 1004 ''tokB'' = Inr (joined_db, 0) \<and>
   acceptInvite joined_db (Some stranger_user) 1005 ''tokB'' = Inl InviteAlreadyUsed"
proof -
  let ?tokB = "\<lparr>inv_id = 3, inv_operatorId = 0, inv_email = ''u2@x.com'',
                 inv_role = InviteBusiness, inv_token = ''tokB'', inv_createdAt = 1002,
                 inv_expiresAt = 604801002, inv_usedAt = None\<rparr>"
  have unknown: "find (\<lambda>i. inv_token i = ''nope'') (invites registered_db) = None"
    by (simp add: registered_db_eq)
  have used: "find (\<lambda>i. inv_token i = ''tokB'') (invites registered_db) =
                Some (?tokB\<lparr>inv_usedAt := Some 1004\<rparr>)"
    by (simp add: registered_db_eq)
  have fresh: "find (\<lambda>i. inv_token i = ''tokB'') (invites invited_db) = Some ?tokB"
    by (simp add: invited_db_eq)
  have owner: "find (\<lambda>m. mem_userId m = u_id owner_user) (members invited_db) =
      Some \<lparr>mem_id = 1, mem_operatorId = 0, mem_userId = ''U1'', mem_role = Operator,
             mem_email = ''u1@x.com'', mem_name = ''Una'', mem_createdAt = 1000\<rparr>"
    by (simp add: invited_db_eq owner_user_def)
  have ok: "acceptInvite invited_db (Some business_user) 1004 ''tokB'' = Inr (joined_db, 0)"
    by (simp add: joined_db_eq invited_db_eq scenario_defs acceptInvite_def)
  from acceptInvite_single_use
         [where token = "''nope''" and s = registered_db and user = stranger_user and now = 2000]
       unknown
  have c1: "acceptInvite registered_db (Some stranger_user) 2000 ''nope'' = Inl InvalidInvite"
    by simp
  from acceptInvite_single_use
         [where token = "''tokB''" and s = registered_db and user = stranger_user and now = 2000
            and invite = "?tokB\<lparr>inv_usedAt := Some 1004\<rparr>" and used = 1004]
       used reachable_registered_db
  have c2: "acceptInvite registered_db (Some stranger_user) 2000 ''tokB'' = Inl InviteAlreadyUsed"
    by simp
  from acceptInvite_single_use
         [where token = "''tokB''" and s = invited_db and user = business_user
            and now = 604801003 and invite = ?tokB]
       fresh
  have c3: "acceptInvite invited_db (Some business_user) 604801003 ''tokB'' = Inl InviteExpired"
    by simp
  from acceptInvite_single_use
         [where token = "''tokB''" and s = invited_db and user = owner_user and now = 1004
            and invite = ?tokB
            and existing = "\<lparr>mem_id = 1, mem_operatorId = 0, mem_userId = ''U1'',
               mem_role = Operator, mem_email = ''u1@x.com'', mem_name = ''Una'',
               mem_createdAt = 1000\<rparr>"]
       fresh owner
  have c4: "acceptInvite invited_db (Some owner_user) 1004 ''tokB'' = Inl AlreadyMember"
    by simp
  from acceptInvite_single_use
         [where token = "''tokB''" and s = invited_db and user = business_user and now = 1004
            and s' = joined_db and r = 0 and user' = stranger_user and now' = 1005]
       ok
  have c5: "acceptInvite joined_db (Some stranger_user) 1005 ''tokB'' = Inl InviteAlreadyUsed"
    by simp
  from c1 c2 c3 c4 c5 ok reachable_registered_db show ?thesis by simp
qed

subsection \<open>Passenger lookup by QR code\<close>

lemma find_first_row:
  assumes "\<forall>x\<in>set before. \<not> P x" and "P p"
  shows "find P (before @ p # after) = Some p"
  using assms by (induction before) auto

lemma find_SomeD:
  "find P xs = Some x \<Longrightarrow> x \<in> set xs \<and> P x"
  by (induction xs) (auto split: if_splits)

text \<open>
  C9. \<open>getByQrCode\<close> checks nothing about the caller: for every caller, the
  unauthenticated one included, and every string it returns without error, and the answer
  is the same for all callers. It returns \<open>null\<close> exactly when no passenger row bears
  the code, and otherwise the first row bearing it, whatever operator that row belongs to.
\<close>

theorem getByQrCode_unguarded:
  "getByQrCode s caller qr = getByQrCode s None qr \<and>
   (\<exists>r. getByQrCode s caller qr = Inr r \<and>
        (case r of
           None \<Rightarrow> \<forall>p\<in>set (passengers s). pas_qrCode p \<noteq> qr
         | Some p \<Rightarrow> p \<in> set (passengers s) \<and> pas_qrCode p = qr)) \<and>
   (passengers s = before @ p # after \<and> (\<forall>x\<in>set before. pas_qrCode x \<noteq> pas_qrCode p) \<longrightarrow>
      getByQrCode s caller (pas_qrCode p) = Inr (Some p))"
proof (intro conjI impI)
  show "getByQrCode s caller qr = getByQrCode s None qr" by (simp add: getByQrCode_def)
next
  show "\<exists>r. getByQrCode s caller qr = Inr r \<and>
        (case r of
           None \<Rightarrow> \<forall>p\<in>set (passengers s). pas_qrCode p \<noteq> qr
         | Some p \<Rightarrow> p \<in> set (passengers s) \<and> pas_qrCode p = qr)"
  proof (cases "find (\<lambda>p. pas_qrCode p = qr) (passengers s)")
    case None
    then have "\<forall>p\<in>set (passengers s). pas_qrCode p \<noteq> qr" by (auto simp: find_None_iff)
    with None show ?thesis by (simp add: getByQrCode_def)
  next
    case (Some p)
    with find_SomeD [OF Some] show ?thesis by (simp add: getByQrCode_def)
  qed
next
  assume "passengers s = before @ p # after \<and> (\<forall>x\<in>set before. pas_qrCode x \<noteq> pas_qrCode p)"
  then show "getByQrCode s caller (pas_qrCode p) = Inr (Some p)"
    using find_first_row [of before "\<lambda>x. pas_qrCode x = pas_qrCode p" p after]
    by (simp add: getByQrCode_def)
qed

theorem getByQrCode_unguarded_witness:
  "passengers trip_db = [] @ alice # [] \<and>
   getByQrCode trip_db None alice_qr = Inr (Some alice) \<and>
   getByQrCode trip_db (Some stranger_user) alice_qr = Inr (Some alice) \<and>
   getByQrCode trip_db None ''SAVARI-000000000000'' = Inr None"
proof -
  have rows: "passengers trip_db = [] @ alice # []"
    by (simp add: trip_db_eq registered_db_eq)
  have qr: "pas_qrCode alice = alice_qr" by (simp add: alice_def alice_qr_def)
  from getByQrCode_unguarded [of trip_db None alice_qr "[]" alice "[]",
         THEN conjunct2, THEN conjunct2] rows qr
  have a: "getByQrCode trip_db None alice_qr = Inr (Some alice)" by simp
  from getByQrCode_unguarded [of trip_db "Some stranger_user" alice_qr "[]" alice "[]",
         THEN conjunct2, THEN conjunct2] rows qr
  have b: "getByQrCode trip_db (Some stranger_user) alice_qr = Inr (Some alice)" by simp
  have c: "getByQrCode trip_db None ''SAVARI-000000000000'' = Inr None"
    by (simp add: getByQrCode_def trip_db_eq registered_db_eq alice_def)
  from a b c rows show ?thesis by simp
qed

subsection \<open>Scanning an archived passenger\<close>

lemma find_map_option:
  assumes "\<And>y. P (f y) = P y"
  shows "find P (map f xs) = map_option f (find P xs)"
  using assms by (induction xs) auto

lemma requireDriverRole_set_archived:
  "requireDriverRole (set_archived a s) caller = requireDriverRole s caller"
  using requireDriverRole_members [of "set_archived a s" s caller]
  by (simp add: set_archived_def)

lemma scanPassenger_set_archived:
  "scanPassenger (set_archived a s) caller now t qr =
     map_sum id
       (\<lambda>(s', r). (set_archived a s',
                   r\<lparr>res_passenger := (res_passenger r)\<lparr>pas_archivedAt := a (res_passenger r)\<rparr>\<rparr>))
       (scanPassenger s caller now t qr)"
proof -
  have found: "find (\<lambda>p. pas_qrCode p = qr) (passengers (set_archived a s)) =
      map_option (\<lambda>p. p\<lparr>pas_archivedAt := a p\<rparr>) (find (\<lambda>p. pas_qrCode p = qr) (passengers s))"
    by (simp add: set_archived_def find_map_option)
  have same: "tripSessions (set_archived a s) = tripSessions s"
    "scans (set_archived a s) = scans s" "next_id (set_archived a s) = next_id s"
    by (simp_all add: set_archived_def)
  show ?thesis
    unfolding scanPassenger_def requireDriverRole_set_archived found same
    by (auto simp: set_archived_def split: sum.splits option.splits)
qed


text \<open>
  C10. \<open>scanPassenger\<close> never reads \<open>archivedAt\<close>. When the caller is the driver
  owning the active trip and the QR code resolves to a passenger of the driver's operator,
  the call returns that passenger record with status \<open>success\<close> or
  \<open>already_scanned\<close>, whatever the passenger's \<open>archivedAt\<close> is. And for every
  call, overwriting the \<open>archivedAt\<close> fields of the passenger table changes neither
  the outcome nor what is written: the result differs only in the \<open>archivedAt\<close> field
  of the rows it carries.
\<close>

theorem scanPassenger_ignores_archivedAt:
  "(requireDriverRole s caller = Inr (user, membership) \<and>
    db_get trip_id (tripSessions s) t = Some trip \<and>
    trip_driverId trip = u_id user \<and> trip_status trip = Active \<and>
    find (\<lambda>x. pas_qrCode x = qr) (passengers s) = Some passenger \<and>
    pas_operatorId passenger = mem_operatorId membership \<longrightarrow>
      map_sum id snd (scanPassenger s caller now t qr) =
        Inr \<lparr>res_passenger = passenger,
             res_status = (if scan_rows s t (pas_id passenger) = [] then Success
                           else AlreadyScanned)\<rparr>) \<and>
   scanPassenger (set_archived a s) caller now t qr =
     map_sum id
       (\<lambda>(s', r). (set_archived a s',
                   r\<lparr>res_passenger := (res_passenger r)\<lparr>pas_archivedAt := a (res_passenger r)\<rparr>\<rparr>))
       (scanPassenger s caller now t qr)"
proof (intro conjI impI)
  assume "requireDriverRole s caller = Inr (user, membership) \<and>
    db_get trip_id (tripSessions s) t = Some trip \<and>
    trip_driverId trip = u_id user \<and> trip_status trip = Active \<and>
    find (\<lambda>x. pas_qrCode x = qr) (passengers s) = Some passenger \<and>
    pas_operatorId passenger = mem_operatorId membership"
  then have pre: "requireDriverRole s caller = Inr (user, membership)"
     "db_get trip_id (tripSessions s) t = Some trip"
     "trip_driverId trip = u_id user" "trip_status trip = Active"
     "find (\<lambda>x. pas_qrCode x = qr) (passengers s) = Some passenger"
     "pas_operatorId passenger = mem_operatorId membership"
    by simp_all
  show "map_sum id snd (scanPassenger s caller now t qr) =
        Inr \<lparr>res_passenger = passenger,
             res_status = (if scan_rows s t (pas_id passenger) = [] then Success
                           else AlreadyScanned)\<rparr>"
    by (simp add: scanPassenger_cases [OF pre])
next
  show "scanPassenger (set_archived a s) caller now t qr =
     map_sum id
       (\<lambda>(s', r). (set_archived a s',
                   r\<lparr>res_passenger := (res_passenger r)\<lparr>pas_archivedAt := a (res_passenger r)\<rparr>\<rparr>))
       (scanPassenger s caller now t qr)"
    by (rule scanPassenger_set_archived)
qed

theorem scanPassenger_ignores_archivedAt_witness:
  "find (\<lambda>x. pas_qrCode x = alice_qr) (passengers archived_db) =
     Some (alice\<lparr>pas_archivedAt := Some 2000\<rparr>) \<and>
   map_sum id snd (scanPassenger archived_db (Some driver_user) 2001 8 alice_qr) =
     Inr \<lparr>res_passenger = alice\<lparr>pas_archivedAt := Some 2000\<rparr>, res_status = Success\<rparr> \<and>
   set_archived (\<lambda>p. None) archived_db = trip_db \<and>
   map_sum id snd (scanPassenger trip_db (Some driver_user) 2001 8 alice_qr) =
     Inr \<lparr>res_passenger = alice, res_status = Success\<rparr>"
proof -
  have pre: "requireDriverRole archived_db (Some driver_user) = Inr (driver_user, driver_member) \<and>
     db_get trip_id (tripSessions archived_db) 8 = Some first_trip \<and>
     trip_driverId first_trip = u_id driver_user \<and> trip_status first_trip = Active \<and>
     find (\<lambda>x. pas_qrCode x = alice_qr) (passengers archived_db) =
       Some (alice\<lparr>pas_archivedAt := Some 2000\<rparr>) \<and>
     pas_operatorId (alice\<lparr>pas_archivedAt := Some 2000\<rparr>) = mem_operatorId driver_member"
    by (simp add: archived_db_eq trip_db_eq registered_db_eq scenario_defs)
  have rows: "scan_rows archived_db 8 (pas_id (alice\<lparr>pas_archivedAt := Some 2000\<rparr>)) = []"
    by (simp add: scan_rows_def archived_db_eq trip_db_eq registered_db_eq)
  have unarch: "set_archived (\<lambda>p. None) archived_db = trip_db"
    by (simp add: set_archived_def archived_db_eq trip_db_eq registered_db_eq alice_def)
  note inst = scanPassenger_ignores_archivedAt [of archived_db "Some driver_user" driver_user
      driver_member 8 first_trip alice_qr "alice\<lparr>pas_archivedAt := Some 2000\<rparr>" 2001 "\<lambda>p. None"]
  from inst pre rows have a:
    "map_sum id snd (scanPassenger archived_db (Some driver_user) 2001 8 alice_qr) =
       Inr \<lparr>res_passenger = alice\<lparr>pas_archivedAt := Some 2000\<rparr>, res_status = Success\<rparr>"
    by simp
  from inst [THEN conjunct2] unarch have
    "scanPassenger trip_db (Some driver_user) 2001 8 alice_qr =
     map_sum id
       (\<lambda>(s', r). (set_archived (\<lambda>p. None) s',
                   r\<lparr>res_passenger := (res_passenger r)\<lparr>pas_archivedAt := None\<rparr>\<rparr>))
       (scanPassenger archived_db (Some driver_user) 2001 8 alice_qr)"
    by simp
  then have "map_sum id snd (scanPassenger trip_db (Some driver_user) 2001 8 alice_qr) =
     map_sum id (\<lambda>r. r\<lparr>res_passenger := (res_passenger r)\<lparr>pas_archivedAt := None\<rparr>\<rparr>)
       (map_sum id snd (scanPassenger archived_db (Some driver_user) 2001 8 alice_qr))"
    by (cases "scanPassenger archived_db (Some driver_user) 2001 8 alice_qr") auto
  with a have b: "map_sum id snd (scanPassenger trip_db (Some driver_user) 2001 8 alice_qr) =
     Inr \<lparr>res_passenger = alice, res_status = Success\<rparr>"
    by (simp add: alice_def)
  from a b unarch pre show ?thesis by simp
qed

subsection \<open>Listing passengers\<close>

lemma reachable_archived_truthy:
  assumes "reachable s" and "p \<in> set (passengers s)" and "\<not> truthy (pas_archivedAt p)"
  shows "pas_archivedAt p = None"
proof -
  from reachable_stamps_nonzero [OF assms(1)] assms(2) have "pas_archivedAt p \<noteq> Some 0"
    by (simp add: stamps_nonzero_def list_all_iff)
  with assms(3) show ?thesis by (cases "pas_archivedAt p") auto
qed

lemma listPassengers_effect:
  assumes "listPassengers pg s caller operatorId cursor numItems includeArchived = Inr r"
  shows "\<exists>rows. set rows \<subseteq> set (passengers s) \<and>
           r = (pg rows cursor numItems)
                 \<lparr>pg_page := (if includeArchived = Some True
                              then pg_page (pg rows cursor numItems)
                              else filter (\<lambda>p. \<not> truthy (pas_archivedAt p))
                                     (pg_page (pg rows cursor numItems)))\<rparr>"
proof (cases "requireMembership s caller operatorId")
  case (Inl e)
  with assms show ?thesis by (simp add: listPassengers_def)
next
  case (Inr um)
  obtain user membership where um: "um = (user, membership)" by (cases um)
  define rows where "rows =
     (if mem_role membership = Business
      then filter (\<lambda>p. pas_operatorId p = operatorId \<and> pas_businessId p = u_id user)
             (passengers s)
      else filter (\<lambda>p. pas_operatorId p = operatorId) (passengers s))"
  have "set rows \<subseteq> set (passengers s)" by (auto simp: rows_def)
  moreover from assms Inr um have
    "r = (pg rows cursor numItems)
                 \<lparr>pg_page := (if includeArchived = Some True
                              then pg_page (pg rows cursor numItems)
                              else filter (\<lambda>p. \<not> truthy (pas_archivedAt p))
                                     (pg_page (pg rows cursor numItems)))\<rparr>"
    by (auto simp: listPassengers_def Let_def rows_def)
  ultimately show ?thesis by blast
qed

text \<open>
  C8. A passenger listing leaves archived rows out unless they are asked for. With
  \<open>includeArchived\<close> absent or false, every row of the returned page fails the
  truthiness test on \<open>archivedAt\<close>; in a reachable state, with a pagination that returns
  rows of the range it is given, no row of the page has \<open>archivedAt\<close> set. With
  \<open>includeArchived\<close> true the page is the platform's page of the caller's range,
  unfiltered, so archived rows may appear.
\<close>

theorem listPassengers_hides_archived:
  assumes "listPassengers pg s caller operatorId cursor numItems includeArchived = Inr r"
  shows "(includeArchived \<noteq> Some True \<longrightarrow>
            (\<forall>p\<in>set (pg_page r). \<not> truthy (pas_archivedAt p)) \<and>
            (reachable s \<and> (\<forall>rows. set (pg_page (pg rows cursor numItems)) \<subseteq> set rows) \<longrightarrow>
               (\<forall>p\<in>set (pg_page r). pas_archivedAt p = None))) \<and>
         (includeArchived = Some True \<longrightarrow>
            (\<exists>rows. set rows \<subseteq> set (passengers s) \<and>
                    pg_page r = pg_page (pg rows cursor numItems)))"
proof -
  from listPassengers_effect [OF assms] obtain rows where
    rows: "set rows \<subseteq> set (passengers s)"
    and r: "r = (pg rows cursor numItems)
                 \<lparr>pg_page := (if includeArchived = Some True
                              then pg_page (pg rows cursor numItems)
                              else filter (\<lambda>p. \<not> truthy (pas_archivedAt p))
                                     (pg_page (pg rows cursor numItems)))\<rparr>"
    by blast
  show ?thesis
  proof (intro conjI impI)
    assume "includeArchived \<noteq> Some True"
    with r show "\<forall>p\<in>set (pg_page r). \<not> truthy (pas_archivedAt p)" by simp
  next
    assume no: "includeArchived \<noteq> Some True"
      and "reachable s \<and> (\<forall>rows. set (pg_page (pg rows cursor numItems)) \<subseteq> set rows)"
    then have reach: "reachable s"
      and sub: "set (pg_page (pg rows cursor numItems)) \<subseteq> set rows" by blast+
    show "\<forall>p\<in>set (pg_page r). pas_archivedAt p = None"
    proof
      fix p assume "p \<in> set (pg_page r)"
      with r no have "p \<in> set (pg_page (pg rows cursor numItems))"
        and "\<not> truthy (pas_archivedAt p)" by simp_all
      with sub rows have "p \<in> set (passengers s)" by blast
      from reachable_archived_truthy [OF reach this \<open>\<not> truthy (pas_archivedAt p)\<close>]
      show "pas_archivedAt p = None" .
    qed
  next
    assume "includeArchived = Some True"
    with r rows show "\<exists>rows. set rows \<subseteq> set (passengers s) \<and>
                    pg_page r = pg_page (pg rows cursor numItems)" by auto
  qed
qed


theorem listPassengers_hides_archived_witness:
  "reachable listed_db \<and>
   passengers listed_db = [alice\<lparr>pas_archivedAt := Some 2000\<rparr>, bob] \<and>
   listPassengers first_page listed_db (Some business_user) 0 None 10 None =
     Inr \<lparr>pg_page = [bob], pg_isDone = True, pg_continueCursor = []\<rparr> \<and>
   pas_archivedAt bob = None \<and>
   listPassengers first_page listed_db (Some business_user) 0 None 10 (Some True) =
     Inr \<lparr>pg_page = [alice\<lparr>pas_archivedAt := Some 2000\<rparr>, bob], pg_isDone = True,
          pg_continueCursor = []\<rparr>"
proof -
  have rows: "passengers listed_db = [alice\<lparr>pas_archivedAt := Some 2000\<rparr>, bob]"
    by (simp add: listed_db_eq)
  have hidden: "listPassengers first_page listed_db (Some business_user) 0 None 10 None =
     Inr \<lparr>pg_page = [bob], pg_isDone = True, pg_continueCursor = []\<rparr>"
    by (simp add: listPassengers_def first_page_def listed_db_eq archived_db_eq trip_db_eq
        registered_db_eq scenario_defs)
  have shown: "listPassengers first_page listed_db (Some business_user) 0 None 10 (Some True) =
     Inr \<lparr>pg_page = [alice\<lparr>pas_archivedAt := Some 2000\<rparr>, bob], pg_isDone = True,
          pg_continueCursor = []\<rparr>"
    by (simp add: listPassengers_def first_page_def listed_db_eq archived_db_eq trip_db_eq
        registered_db_eq scenario_defs)
  have sub: "\<forall>rows. set (pg_page (first_page rows None 10)) \<subseteq> set rows"
    by (simp add: first_page_def set_take_subset)
  from listPassengers_hides_archived [OF hidden] reachable_listed_db sub
  have "pas_archivedAt bob = None" by simp
  with rows hidden shown reachable_listed_db show ?thesis by simp
qed

subsection \<open>Archiving twice\<close>

lemma archived_twice_db_eq:
  "archived_twice_db = trip_db\<lparr>passengers := [alice\<lparr>pas_archivedAt := Some 3000\<rparr>]\<rparr>"
  unfolding archived_twice_db_def archived_db_eq trip_db_eq registered_db_eq
  by (simp add: scenario_defs archivePassenger_def)

lemma requireBusinessRole_members:
  "members s' = members s \<Longrightarrow> requireBusinessRole s' caller = requireBusinessRole s caller"
  by (cases caller) (simp_all add: requireBusinessRole_def)

lemma archivePassenger_effect:
  assumes "archivePassenger s caller now pid = Inr (s1, u)"
  shows "\<exists>user membership passenger.
           requireBusinessRole s caller = Inr (user, membership) \<and>
           db_get pas_id (passengers s) pid = Some passenger \<and>
           pas_businessId passenger = u_id user \<and>
           s1 = s\<lparr>passengers := db_patch pas_id (passengers s) pid
                     (\<lambda>p. p\<lparr>pas_archivedAt := Some now\<rparr>)\<rparr>"
  using assms
  by (auto simp: archivePassenger_def split: sum.splits option.splits if_splits)

text \<open>
  C4 as stated fails: the second call overwrites \<open>archivedAt\<close>. In the scenario Alice
  is archived at time 2000 and again at time 3000; both calls succeed and the row then
  carries 3000, not the value set by the first call.
\<close>

theorem archivePassenger_twice_counterexample:
  "archivePassenger trip_db (Some business_user) 2000 7 = Inr (archived_db, ()) \<and>
   map_option pas_archivedAt (db_get pas_id (passengers archived_db) 7) = Some (Some 2000) \<and>
   archivePassenger archived_db (Some business_user) 3000 7 = Inr (archived_twice_db, ()) \<and>
   map_option pas_archivedAt (db_get pas_id (passengers archived_twice_db) 7) =
     Some (Some 3000) \<and>
   db_get pas_id (passengers archived_twice_db) 7 \<noteq> db_get pas_id (passengers archived_db) 7"
  by (simp add: archivePassenger_def archived_twice_db_eq archived_db_eq trip_db_eq
      registered_db_eq scenario_defs)

text \<open>
  C4, amended. A second \<open>archivePassenger\<close> call by the same caller on the same
  passenger succeeds and keeps the passenger archived. It overwrites \<open>archivedAt\<close> with
  the time of the second call and changes no other field of the row, no other row and no
  other table.
\<close>

theorem archivePassenger_twice:
  assumes "archivePassenger s caller now1 pid = Inr (s1, ())"
  shows "archivePassenger s1 caller now2 pid =
           Inr (s1\<lparr>passengers := db_patch pas_id (passengers s1) pid
                     (\<lambda>p. p\<lparr>pas_archivedAt := Some now2\<rparr>)\<rparr>, ()) \<and>
         (\<exists>p. db_get pas_id (passengers s) pid = Some p \<and>
              db_get pas_id (passengers s1) pid = Some (p\<lparr>pas_archivedAt := Some now1\<rparr>) \<and>
              db_get pas_id (passengers (state_after s1 (archivePassenger s1 caller now2 pid)))
                pid = Some (p\<lparr>pas_archivedAt := Some now2\<rparr>)) \<and>
         (\<forall>j. j \<noteq> pid \<longrightarrow>
              db_get pas_id (passengers (state_after s1 (archivePassenger s1 caller now2 pid))) j =
              db_get pas_id (passengers s1) j)"
proof -
  from archivePassenger_effect [OF assms] obtain user membership p where
    role: "requireBusinessRole s caller = Inr (user, membership)"
    and p: "db_get pas_id (passengers s) pid = Some p"
    and own: "pas_businessId p = u_id user"
    and s1: "s1 = s\<lparr>passengers := db_patch pas_id (passengers s) pid
                     (\<lambda>p. p\<lparr>pas_archivedAt := Some now1\<rparr>)\<rparr>"
    by blast
  from p have p1: "db_get pas_id (passengers s1) pid = Some (p\<lparr>pas_archivedAt := Some now1\<rparr>)"
    by (simp add: s1 db_get_patch)
  have role1: "requireBusinessRole s1 caller = Inr (user, membership)"
    using role requireBusinessRole_members [of s1 s caller] by (simp add: s1)
  define s2 where "s2 = s1\<lparr>passengers := db_patch pas_id (passengers s1) pid
                     (\<lambda>p. p\<lparr>pas_archivedAt := Some now2\<rparr>)\<rparr>"
  from role1 p1 own have second: "archivePassenger s1 caller now2 pid = Inr (s2, ())"
    by (simp add: archivePassenger_def s2_def)
  then have after: "state_after s1 (archivePassenger s1 caller now2 pid) = s2"
    by (simp add: state_after_def)
  from p1 have p2: "db_get pas_id (passengers s2) pid = Some (p\<lparr>pas_archivedAt := Some now2\<rparr>)"
    by (simp add: s2_def db_get_patch)
  have others: "\<forall>j. j \<noteq> pid \<longrightarrow> db_get pas_id (passengers s2) j = db_get pas_id (passengers s1) j"
    by (simp add: s2_def db_get_patch)
  from second p p1 p2 others show ?thesis
    unfolding after by (simp add: s2_def)
qed

theorem archivePassenger_twice_witness:
  "archivePassenger trip_db (Some business_user) 2000 7 = Inr (archived_db, ()) \<and>
   archivePassenger archived_db (Some business_user) 3000 7 = Inr (archived_twice_db, ()) \<and>
   db_get pas_id (passengers archived_twice_db) 7 = Some (alice\<lparr>pas_archivedAt := Some 3000\<rparr>)"
proof -
  have first: "archivePassenger trip_db (Some business_user) 2000 7 = Inr (archived_db, ())"
    by (simp add: archivePassenger_def archived_db_eq trip_db_eq registered_db_eq scenario_defs)
  have twice: "archived_db\<lparr>passengers := db_patch pas_id (passengers archived_db) 7
                     (\<lambda>p. p\<lparr>pas_archivedAt := Some 3000\<rparr>)\<rparr> = archived_twice_db"
    by (simp add: archived_twice_db_eq archived_db_eq trip_db_eq registered_db_eq scenario_defs)
  from archivePassenger_twice [OF first, of 3000] twice
  have "archivePassenger archived_db (Some business_user) 3000 7 = Inr (archived_twice_db, ())"
    by simp
  with first show ?thesis
    by (simp add: archived_twice_db_eq trip_db_eq registered_db_eq scenario_defs)
qed

subsection \<open>One Member row per user\<close>

lemma reachable_second_operator_db: "reachable second_operator_db"
  unfolding second_operator_db_def
  by (rule replay_reachable [OF reachable_registered_db]) simp

lemma acceptInvite_members:
  assumes "acceptInvite s caller now token = Inr (s', r)"
  shows "\<exists>user m. caller = Some user \<and>
           find (\<lambda>m. mem_userId m = u_id user) (members s) = None \<and>
           members s' = members s @ [m] \<and> mem_userId m = u_id user"
  using assms
  by (auto simp: acceptInvite_def split: option.splits if_splits)

lemma acceptInvite_keeps_one_member_row:
  assumes "acceptInvite s caller now token = Inr (s', r)"
    and "\<forall>u. length (member_rows s u) \<le> 1"
  shows "length (member_rows s' u) \<le> 1"
proof -
  from acceptInvite_members [OF assms(1)] obtain user m where
    "caller = Some user"
    and none: "find (\<lambda>m. mem_userId m = u_id user) (members s) = None"
    and app: "members s' = members s @ [m]" and m: "mem_userId m = u_id user"
    by (elim exE conjE) (rule that, assumption+)
  show ?thesis
  proof (cases "u = u_id user")
    case True
    from none have "member_rows s (u_id user) = []"
      by (auto simp: member_rows_def find_None_iff filter_empty_conv)
    with app m True show ?thesis by (simp add: member_rows_def)
  next
    case False
    with app m have "member_rows s' u = member_rows s u" by (simp add: member_rows_def)
    with assms(2) show ?thesis by simp
  qed
qed

text \<open>
  C3. Invite acceptance refuses a user who already has a Member row (the business U2,
  once a member, is told so on the driver's token), but operator creation only looks at the
  operators table (slug taken, caller already an owner). In the scenario the driver U3, a
  member of Acme since accepting the invite, creates operator Beta: the call succeeds and
  U3 has two Member rows in a reachable state.
\<close>

theorem createOperator_second_member_row:
  "reachable registered_db \<and>
   member_rows registered_db ''U3'' = [driver_member] \<and>
   createOperator registered_db (Some driver_user) 1500 ''Beta'' ''beta'' =
     Inr (second_operator_db, 8) \<and>
   reachable second_operator_db \<and>
   member_rows second_operator_db ''U3'' =
     [driver_member,
      \<lparr>mem_id = 9, mem_operatorId = 8, mem_userId = ''U3'', mem_role = Operator,
        mem_email = ''u3@x.com'', mem_name = ''Dan'', mem_createdAt = 1500\<rparr>] \<and>
   acceptInvite joined_db (Some business_user) 1005 ''tokD'' = Inl AlreadyMember"
proof -
  have "member_rows registered_db ''U3'' = [driver_member]"
    by (simp add: member_rows_def registered_db_eq scenario_defs)
  moreover have "createOperator registered_db (Some driver_user) 1500 ''Beta'' ''beta'' =
     Inr (second_operator_db, 8)"
    by (simp add: second_operator_db_def registered_db_eq scenario_defs createOperator_def)
  moreover have "member_rows second_operator_db ''U3'' =
     [driver_member,
      \<lparr>mem_id = 9, mem_operatorId = 8, mem_userId = ''U3'', mem_role = Operator,
        mem_email = ''u3@x.com'', mem_name = ''Dan'', mem_createdAt = 1500\<rparr>]"
    by (simp add: member_rows_def second_operator_db_def registered_db_eq scenario_defs
        createOperator_def)
  moreover have "acceptInvite joined_db (Some business_user) 1005 ''tokD'' = Inl AlreadyMember"
    by (simp add: acceptInvite_def joined_db_eq invited_db_eq scenario_defs)
  ultimately show ?thesis
    using reachable_registered_db reachable_second_operator_db by simp
qed

end
